theory Spec2Isabelle
  imports
    Complex_Main
    "HOL-Library.Char_ord"
    "HOL-Library.List_Lexorder"
    "HOL-Library.Product_Lexorder"
begin

section \<open>Python values and exceptions\<close>

text \<open>
  The script \<^verbatim>\<open>scripts/generate_graphs.py\<close> reads benchmark lines, parses them
  into \<^verbatim>\<open>BenchmarkResult\<close> objects and aggregates these into
  \<^verbatim>\<open>ComparisonResult\<close> objects. The functions below are a shallow embedding of
  its parser and of its aggregator.

  A Python \<^verbatim>\<open>str\<close> is a \<^typ>\<open>string\<close>: the list of its characters, for text whose
  code points are below 256. Strings are ordered as Python orders them, character by
  character with a proper prefix first.

  An exception is a value: a function that may raise returns \<open>py_error + 'a\<close>, with
  \<open>Inl\<close> the exception that leaves the function. \<open>Unmodelled\<close> is no exception of
  Python: it marks the inputs on which the model of a library function does not say what
  the library does.

  The functions of the standard library that the script calls are modelled from their
  documented behaviour. Not modelled are: code points above 255, the rounding and the
  special values of floats, the interpreter's limit on the number of digits of an
  \<^verbatim>\<open>int\<close> read from text, its limit on the depth of recursion, and the
  \<^verbatim>\<open>OverflowError\<close> of a true division of integers too large for a float.
\<close>

datatype py_error =
    JSONDecodeError
  | KeyError
  | AttributeError
  | TypeError
  | ValueError
  | ZeroDivisionError
  | RecursionError
  | Unmodelled

text \<open>
  The measured fields of a record come from \<^verbatim>\<open>json.loads\<close> unchecked, so they hold
  any value a JSON text can denote. A Python \<^verbatim>\<open>float\<close> is modelled by the rational
  number it denotes: rounding, infinities and NaN are not modelled.
\<close>

datatype pyval =
    PNone
  | PBool bool
  | PInt int
  | PFloat rat
  | PStr string
  | PList "pyval list"
  | PDict "(string \<times> pyval) list"

text \<open>\<^verbatim>\<open>v > 0\<close>: numbers compare (\<^verbatim>\<open>bool\<close> is a subclass of \<^verbatim>\<open>int\<close>), every
  other type raises \<^verbatim>\<open>TypeError\<close>.\<close>

fun py_gt_zero :: "pyval \<Rightarrow> py_error + bool" where
  "py_gt_zero (PBool b) = Inr b"
| "py_gt_zero (PInt i) = Inr (i > 0)"
| "py_gt_zero (PFloat x) = Inr (x > 0)"
| "py_gt_zero _ = Inl TypeError"

text \<open>The number a numeric value stands for in true division.\<close>

fun py_number :: "pyval \<Rightarrow> rat option" where
  "py_number (PBool b) = Some (if b then 1 else 0)"
| "py_number (PInt i) = Some (of_int i)"
| "py_number (PFloat x) = Some x"
| "py_number _ = None"

text \<open>\<^verbatim>\<open>a / b\<close>: true division of numbers always gives a \<^verbatim>\<open>float\<close>.\<close>

definition py_truediv :: "pyval \<Rightarrow> pyval \<Rightarrow> py_error + pyval" where
  "py_truediv a b =
     (case (py_number a, py_number b) of
        (Some x, Some y) \<Rightarrow> if y = 0 then Inl ZeroDivisionError else Inr (PFloat (x / y))
      | _ \<Rightarrow> Inl TypeError)"

section \<open>String methods\<close>

text \<open>\<^verbatim>\<open>s.split(c)\<close> for a separator of one character. The result is never empty
  (\<open>py_split_nonempty\<close>), so the case of an empty list in the second equation is never
  taken.\<close>

fun py_split :: "char \<Rightarrow> string \<Rightarrow> string list" where
  "py_split c [] = [[]]"
| "py_split c (x # xs) =
     (if x = c then [] # py_split c xs
      else (case py_split c xs of [] \<Rightarrow> [[x]] | w # ws \<Rightarrow> (x # w) # ws))"

text \<open>\<^verbatim>\<open>s.startswith(p)\<close>.\<close>

fun py_startswith :: "string \<Rightarrow> string \<Rightarrow> bool" where
  "py_startswith s [] = True"
| "py_startswith [] (p # ps) = False"
| "py_startswith (x # xs) (p # ps) = (x = p \<and> py_startswith xs ps)"

text \<open>\<^verbatim>\<open>s.replace(old, new, 1)\<close> for a non-empty \<^verbatim>\<open>old\<close>: the leftmost occurrence of
  \<^verbatim>\<open>old\<close> is replaced, wherever it is; a string without one is returned as it is.\<close>

fun py_replace1 :: "string \<Rightarrow> string \<Rightarrow> string \<Rightarrow> string" where
  "py_replace1 old new [] = []"
| "py_replace1 old new (x # xs) =
     (if py_startswith (x # xs) old then new @ drop (length old) (x # xs)
      else x # py_replace1 old new xs)"

section \<open>The data model\<close>

record BenchmarkResult =
  name :: string
  operation :: string
  hive_size :: string
  impl :: string
  iterations :: pyval
  ns_per_op :: pyval
  bytes_per_op :: pyval
  allocs_per_op :: pyval

record ComparisonResult =
  operation :: string
  hive_size :: string
  gohivex_ns :: pyval
  hivex_ns :: pyval
  speedup :: pyval
  gohivex_mem :: pyval
  hivex_mem :: pyval
  gohivex_allocs :: pyval
  hivex_allocs :: pyval
  gohivex_only :: bool

text \<open>The constructor \<^verbatim>\<open>ComparisonResult(operation, hive_size)\<close>.\<close>

definition new_comparison :: "string \<Rightarrow> string \<Rightarrow> ComparisonResult" where
  "new_comparison op sz =
     \<lparr> ComparisonResult.operation = op, ComparisonResult.hive_size = sz,
       gohivex_ns = PFloat 0, hivex_ns = PFloat 0, speedup = PFloat 0,
       gohivex_mem = PInt 0, hivex_mem = PInt 0,
       gohivex_allocs = PInt 0, hivex_allocs = PInt 0,
       gohivex_only = False \<rparr>"

section \<open>Character classes\<close>

text \<open>\<^verbatim>\<open>c.isspace()\<close>, which is also the class \<^verbatim>\<open>\s\<close> of \<^verbatim>\<open>re\<close>.\<close>

definition isspace :: "char \<Rightarrow> bool" where
  "isspace c =
     (let n = (of_char c :: nat)
      in (9 \<le> n \<and> n \<le> 13) \<or> (28 \<le> n \<and> n \<le> 32) \<or> n = 133 \<or> n = 160)"

text \<open>The class \<^verbatim>\<open>\d\<close>, and the digits that \<^verbatim>\<open>int\<close>, \<^verbatim>\<open>float\<close> and \<^verbatim>\<open>json\<close> read.\<close>

definition isdigit :: "char \<Rightarrow> bool" where
  "isdigit c = (let n = (of_char c :: nat) in 48 \<le> n \<and> n \<le> 57)"

text \<open>The class \<^verbatim>\<open>\w\<close>: the alphanumeric characters and the underscore.\<close>

definition isword :: "char \<Rightarrow> bool" where
  "isword c =
     (let n = (of_char c :: nat)
      in (48 \<le> n \<and> n \<le> 57) \<or> (65 \<le> n \<and> n \<le> 90) \<or> n = 95 \<or> (97 \<le> n \<and> n \<le> 122)
         \<or> n = 170 \<or> n = 178 \<or> n = 179 \<or> n = 181 \<or> n = 185 \<or> n = 186
         \<or> (188 \<le> n \<and> n \<le> 190) \<or> (192 \<le> n \<and> n \<le> 214) \<or> (216 \<le> n \<and> n \<le> 246)
         \<or> 248 \<le> n)"

text \<open>\<^verbatim>\<open>s.strip()\<close>.\<close>

definition py_strip :: "string \<Rightarrow> string" where
  "py_strip s = rev (dropWhile isspace (rev (dropWhile isspace s)))"

section \<open>Numbers from text\<close>

definition digit_value :: "char \<Rightarrow> int" where
  "digit_value c = of_char c - 48"

definition digits_value :: "string \<Rightarrow> int" where
  "digits_value s = foldl (\<lambda>a c. 10 * a + digit_value c) 0 s"

text \<open>
  \<^verbatim>\<open>int(s)\<close> and \<^verbatim>\<open>float(s)\<close>. The parser applies them to text that the pattern
  matched with \<^verbatim>\<open>\d+\<close> and with \<^verbatim>\<open>[\d.]+\<close>; on any other text the model gives
  \<open>Unmodelled\<close>, which the text parser never meets (\<open>parse_text_benchmark_raises\<close>).
  A text of digits and dots is a float when it has at most one dot and at least one
  digit; \<^verbatim>\<open>float\<close> raises \<^verbatim>\<open>ValueError\<close> on the others.
\<close>

definition py_int :: "string \<Rightarrow> py_error + pyval" where
  "py_int s =
     (if s \<noteq> [] \<and> list_all isdigit s then Inr (PInt (digits_value s))
      else Inl Unmodelled)"

definition py_float :: "string \<Rightarrow> py_error + pyval" where
  "py_float s =
     (if \<not> list_all (\<lambda>c. isdigit c \<or> c = CHR ''.'') s then Inl Unmodelled
      else if length (filter (\<lambda>c. c = CHR ''.'') s) > 1 \<or> \<not> list_ex isdigit s
        then Inl ValueError
      else
        (let whole = takeWhile isdigit s;
             frac = drop 1 (dropWhile isdigit s)
         in Inr (PFloat (of_int (digits_value (whole @ frac)) / 10 ^ length frac))))"

section \<open>Regular expressions: \<^verbatim>\<open>re.match\<close>\<close>

text \<open>
  The constructs that the pattern of \<^verbatim>\<open>parse_text_benchmark\<close> uses. The matcher is
  the backtracking one of \<^verbatim>\<open>re\<close>: it lists the ways to match in the order in which
  \<^verbatim>\<open>re\<close> tries them, each with the text left and the groups captured, and
  \<^verbatim>\<open>re.match\<close> takes the first.
\<close>

datatype cclass = Word | Digit | Space | DigitOrDot | AnyChar

fun in_class :: "cclass \<Rightarrow> char \<Rightarrow> bool" where
  "in_class Word c = isword c"
| "in_class Digit c = isdigit c"
| "in_class Space c = isspace c"
| "in_class DigitOrDot c = (isdigit c \<or> c = CHR ''.'')"
| "in_class AnyChar c = (c \<noteq> CHR 0x0A)"

datatype regex =
    Eps
  | Lit char
  | Seq regex regex
  | Alt regex regex
  | Opt regex
  | Plus cclass
  | PlusLazy cclass
  | Grp nat regex

text \<open>\<^verbatim>\<open>k+\<close> takes as many characters as it can first, \<^verbatim>\<open>k+?\<close> as few as it can: the
  texts left after each way to match, in the order tried.\<close>

fun plus_greedy :: "cclass \<Rightarrow> string \<Rightarrow> string list" where
  "plus_greedy k [] = []"
| "plus_greedy k (x # xs) = (if in_class k x then plus_greedy k xs @ [xs] else [])"

fun plus_lazy :: "cclass \<Rightarrow> string \<Rightarrow> string list" where
  "plus_lazy k [] = []"
| "plus_lazy k (x # xs) = (if in_class k x then xs # plus_lazy k xs else [])"

type_synonym groups = "nat \<Rightarrow> string option"

primrec rmatch :: "regex \<Rightarrow> string \<times> groups \<Rightarrow> (string \<times> groups) list" where
  "rmatch Eps st = [st]"
| "rmatch (Lit c) st =
     (case fst st of [] \<Rightarrow> [] | x # xs \<Rightarrow> if x = c then [(xs, snd st)] else [])"
| "rmatch (Seq a b) st = concat (map (rmatch b) (rmatch a st))"
| "rmatch (Alt a b) st = rmatch a st @ rmatch b st"
| "rmatch (Opt a) st = rmatch a st @ [st]"
| "rmatch (Plus k) st = map (\<lambda>r. (r, snd st)) (plus_greedy k (fst st))"
| "rmatch (PlusLazy k) st = map (\<lambda>r. (r, snd st)) (plus_lazy k (fst st))"
| "rmatch (Grp n a) st =
     map (\<lambda>(r, g). (r, g(n \<mapsto> take (length (fst st) - length r) (fst st)))) (rmatch a st)"

definition re_match :: "regex \<Rightarrow> string \<Rightarrow> groups option" where
  "re_match p s = (case rmatch p (s, Map.empty) of [] \<Rightarrow> None | (r, g) # _ \<Rightarrow> Some g)"

definition Str :: "string \<Rightarrow> regex" where
  "Str s = foldr (\<lambda>c r. Seq (Lit c) r) s Eps"

definition Cat :: "regex list \<Rightarrow> regex" where
  "Cat rs = foldr Seq rs Eps"

text \<open>
  \<^verbatim>\<open>^Benchmark(\w+)/(gohivex|hivex)/(\w+)(?:/(.+?))?-\d+\s+(\d+)\s+([\d.]+)\s+ns/op(?:\s+(\d+)\s+B/op)?(?:\s+(\d+)\s+allocs/op)?\<close>
\<close>

definition pattern :: regex where
  "pattern = Cat
     [Str ''Benchmark'', Grp 1 (Plus Word), Str ''/'',
      Grp 2 (Alt (Str ''gohivex'') (Str ''hivex'')), Str ''/'',
      Grp 3 (Plus Word),
      Opt (Cat [Str ''/'', Grp 4 (PlusLazy AnyChar)]),
      Str ''-'', Plus Digit,
      Plus Space, Grp 5 (Plus Digit),
      Plus Space, Grp 6 (Plus DigitOrDot),
      Plus Space, Str ''ns/op'',
      Opt (Cat [Plus Space, Grp 7 (Plus Digit), Plus Space, Str ''B/op'']),
      Opt (Cat [Plus Space, Grp 8 (Plus Digit), Plus Space, Str ''allocs/op''])]"

section \<open>The text parser: \<^verbatim>\<open>parse_text_benchmark\<close>\<close>

definition parse_text_benchmark :: "string \<Rightarrow> py_error + BenchmarkResult option" where
  "parse_text_benchmark line =
     (case re_match pattern line of
        None \<Rightarrow> Inr None
      | Some g \<Rightarrow>
          (case (g 1, g 2, g 3, g 5, g 6) of
             (Some operation', Some impl', Some hive_size', Some iterations', Some ns_per_op') \<Rightarrow>
               (let variant = (case g 4 of None \<Rightarrow> [] | Some v \<Rightarrow> v);
                    display_name =
                      (if variant \<noteq> [] then operation' @ ''/'' @ variant else operation')
                in case py_int iterations' of
                     Inl e \<Rightarrow> Inl e
                   | Inr its \<Rightarrow>
                  (case py_float ns_per_op' of
                     Inl e \<Rightarrow> Inl e
                   | Inr ns \<Rightarrow>
                  (case (case g 7 of None \<Rightarrow> Inr (PInt 0) | Some b \<Rightarrow> py_int b) of
                     Inl e \<Rightarrow> Inl e
                   | Inr bytes \<Rightarrow>
                  (case (case g 8 of None \<Rightarrow> Inr (PInt 0) | Some a \<Rightarrow> py_int a) of
                     Inl e \<Rightarrow> Inl e
                   | Inr allocs \<Rightarrow>
                       Inr (Some
                         \<lparr> name = ''Benchmark'' @ operation' @ ''/'' @ impl' @ ''/''
                                   @ hive_size' @ ''/'' @ variant,
                           BenchmarkResult.operation = display_name,
                           BenchmarkResult.hive_size = hive_size',
                           impl = impl',
                           iterations = its,
                           ns_per_op = ns,
                           bytes_per_op = bytes,
                           allocs_per_op = allocs \<rparr>)))))
           | _ \<Rightarrow> Inl Unmodelled))"

section \<open>JSON: \<^verbatim>\<open>json.loads\<close>\<close>

text \<open>
  The decoder of the standard library, for a text of 8-bit characters. It reads one
  JSON value, with white space allowed before and after it, and raises
  \<^verbatim>\<open>JSONDecodeError\<close> on every other text. Two kinds of value are not modelled, and
  give \<open>Unmodelled\<close>: the constants \<^verbatim>\<open>NaN\<close>, \<^verbatim>\<open>Infinity\<close> and \<^verbatim>\<open>-Infinity\<close>, and
  an escape \<^verbatim>\<open>\uXXXX\<close> of a code point above 255.
\<close>

text \<open>JSON white space: space, tab, line feed, carriage return.\<close>

definition json_ws :: "char \<Rightarrow> bool" where
  "json_ws c = (c = CHR '' '' \<or> c = CHR 0x09 \<or> c = CHR 0x0A \<or> c = CHR 0x0D)"

definition skip_ws :: "string \<Rightarrow> string" where
  "skip_ws s = dropWhile json_ws s"

text \<open>A \<^verbatim>\<open>dict\<close> keeps its keys in the order of their first assignment, and for each key
  the value assigned last.\<close>

fun dict_set :: "string \<Rightarrow> pyval \<Rightarrow> (string \<times> pyval) list \<Rightarrow> (string \<times> pyval) list" where
  "dict_set k v [] = [(k, v)]"
| "dict_set k v ((k', v') # d) = (if k' = k then (k', v) # d else (k', v') # dict_set k v d)"

definition py_dict :: "(string \<times> pyval) list \<Rightarrow> (string \<times> pyval) list" where
  "py_dict pairs = fold (\<lambda>(k, v) d. dict_set k v d) pairs []"

text \<open>\<^verbatim>\<open>d.get(k, default)\<close>.\<close>

definition dict_get :: "(string \<times> pyval) list \<Rightarrow> string \<Rightarrow> pyval \<Rightarrow> pyval" where
  "dict_get d k dflt = (case map_of d k of None \<Rightarrow> dflt | Some v \<Rightarrow> v)"

definition hex_value :: "char \<Rightarrow> int option" where
  "hex_value c =
     (let n = (of_char c :: int)
      in if 48 \<le> n \<and> n \<le> 57 then Some (n - 48)
         else if 65 \<le> n \<and> n \<le> 70 then Some (n - 55)
         else if 97 \<le> n \<and> n \<le> 102 then Some (n - 87)
         else None)"

text \<open>The characters that may follow a backslash, \<^verbatim>\<open>u\<close> apart, and what they stand for.\<close>

definition BACKSLASH :: "(char \<times> char) list" where
  "BACKSLASH =
     [(CHR 0x22, CHR 0x22), (CHR 0x5C, CHR 0x5C), (CHR ''/'', CHR ''/''),
      (CHR ''b'', CHR 0x08), (CHR ''f'', CHR 0x0C), (CHR ''n'', CHR 0x0A),
      (CHR ''r'', CHR 0x0D), (CHR ''t'', CHR 0x09)]"

text \<open>A string, read from behind its opening quote: the text of the string and what
  follows its closing quote. A control character inside a string is an error.\<close>

fun scanstring :: "string \<Rightarrow> py_error + (string \<times> string)" where
  "scanstring [] = Inl JSONDecodeError"
| "scanstring (c # s) =
     (if c = CHR 0x22 then Inr ([], s)
      else if c = CHR 0x5C then
        (case s of
           [] \<Rightarrow> Inl JSONDecodeError
         | e # s' \<Rightarrow>
             if e = CHR ''u'' then
               (case s' of
                  h1 # h2 # h3 # h4 # s'' \<Rightarrow>
                    (case (hex_value h1, hex_value h2, hex_value h3, hex_value h4) of
                       (Some a, Some b, Some c, Some d) \<Rightarrow>
                         (if a = 0 \<and> b = 0 then
                            (case scanstring s'' of
                               Inl err \<Rightarrow> Inl err
                             | Inr (str, rest) \<Rightarrow> Inr (char_of (16 * c + d) # str, rest))
                          else Inl Unmodelled)
                     | _ \<Rightarrow> Inl JSONDecodeError)
                | _ \<Rightarrow> Inl JSONDecodeError)
             else
               (case map_of BACKSLASH e of
                  None \<Rightarrow> Inl JSONDecodeError
                | Some x \<Rightarrow>
                    (case scanstring s' of
                       Inl err \<Rightarrow> Inl err
                     | Inr (str, rest) \<Rightarrow> Inr (x # str, rest))))
      else if (of_char c :: nat) < 32 then Inl JSONDecodeError
      else
        (case scanstring s of
           Inl err \<Rightarrow> Inl err
         | Inr (str, rest) \<Rightarrow> Inr (c # str, rest)))"

text \<open>
  A number, \<^verbatim>\<open>(-?(?:0|[1-9][0-9]*))(\.[0-9]+)?([eE][-+]?[0-9]+)?\<close>: an \<^verbatim>\<open>int\<close> when it
  has neither fraction nor exponent, a \<^verbatim>\<open>float\<close> otherwise.
\<close>

definition scan_integer :: "string \<Rightarrow> (string \<times> string) option" where
  "scan_integer s =
     (case s of
        [] \<Rightarrow> None
      | c # r \<Rightarrow>
          if c = CHR ''0'' then Some ([c], r)
          else if isdigit c then Some (c # takeWhile isdigit r, dropWhile isdigit r)
          else None)"

definition scan_frac :: "string \<Rightarrow> string \<times> string" where
  "scan_frac s =
     (case s of
        c # d # r \<Rightarrow>
          if c = CHR ''.'' \<and> isdigit d then (d # takeWhile isdigit r, dropWhile isdigit r)
          else ([], s)
      | _ \<Rightarrow> ([], s))"

definition scan_exp :: "string \<Rightarrow> (bool \<times> string) option \<times> string" where
  "scan_exp s =
     (case s of
        [] \<Rightarrow> (None, s)
      | e # r \<Rightarrow>
          if e = CHR ''e'' \<or> e = CHR ''E'' then
            (let neg = (case r of [] \<Rightarrow> False | c # _ \<Rightarrow> c = CHR ''-'');
                 r' = (case r of [] \<Rightarrow> r
                       | c # t \<Rightarrow> if c = CHR ''-'' \<or> c = CHR ''+'' then t else r)
             in case r' of
                  [] \<Rightarrow> (None, s)
                | d # _ \<Rightarrow>
                    if isdigit d then (Some (neg, takeWhile isdigit r'), dropWhile isdigit r')
                    else (None, s))
          else (None, s))"

definition match_number :: "string \<Rightarrow> (pyval \<times> string) option" where
  "match_number s =
     (let neg = (case s of [] \<Rightarrow> False | c # _ \<Rightarrow> c = CHR ''-'');
          s1 = (if neg then tl s else s)
      in case scan_integer s1 of
           None \<Rightarrow> None
         | Some (integer, s2) \<Rightarrow>
             (let (fraction, s3) = scan_frac s2;
                  (exponent, s4) = scan_exp s3;
                  sign = (if neg then - 1 else 1)
              in if fraction = [] \<and> exponent = None
                 then Some (PInt (sign * digits_value integer), s4)
                 else
                   (let mantissa =
                          (of_int (sign * digits_value (integer @ fraction)) :: rat) / 10 ^ length fraction
                    in case exponent of
                         None \<Rightarrow> Some (PFloat mantissa, s4)
                       | Some (eneg, edigits) \<Rightarrow>
                           if eneg
                           then Some (PFloat (mantissa / 10 ^ nat (digits_value edigits)), s4)
                           else Some (PFloat (mantissa * 10 ^ nat (digits_value edigits)), s4))))"

text \<open>
  A value, read at the start of the text, with what follows it. The first argument is
  fuel for the recursion: a call passes one less to the calls it makes, and none left
  gives \<^verbatim>\<open>RecursionError\<close>. \<open>json_loads\<close> starts with one more than the length of the
  text.
\<close>

fun json_value :: "nat \<Rightarrow> string \<Rightarrow> py_error + (pyval \<times> string)"
  and json_members ::
    "nat \<Rightarrow> string \<Rightarrow> (string \<times> pyval) list \<Rightarrow> py_error + (pyval \<times> string)"
  and json_elements :: "nat \<Rightarrow> string \<Rightarrow> pyval list \<Rightarrow> py_error + (pyval \<times> string)" where
  "json_value 0 s = Inl RecursionError"
| "json_value (Suc n) s =
     (case s of
        [] \<Rightarrow> Inl JSONDecodeError
      | c # r \<Rightarrow>
          if c = CHR 0x22 then
            (case scanstring r of Inl e \<Rightarrow> Inl e | Inr (str, r') \<Rightarrow> Inr (PStr str, r'))
          else if c = CHR ''{'' then
            (case skip_ws r of
               [] \<Rightarrow> Inl JSONDecodeError
             | c' # r' \<Rightarrow>
                 if c' = CHR ''}'' then Inr (PDict [], r')
                 else if c' = CHR 0x22 then json_members n r' []
                 else Inl JSONDecodeError)
          else if c = CHR ''['' then
            (case skip_ws r of
               [] \<Rightarrow> Inl JSONDecodeError
             | c' # r' \<Rightarrow>
                 if c' = CHR '']'' then Inr (PList [], r')
                 else json_elements n (c' # r') [])
          else if py_startswith s ''null'' then Inr (PNone, drop 4 s)
          else if py_startswith s ''true'' then Inr (PBool True, drop 4 s)
          else if py_startswith s ''false'' then Inr (PBool False, drop 5 s)
          else
            (case match_number s of
               Some (v, r') \<Rightarrow> Inr (v, r')
             | None \<Rightarrow>
                 if py_startswith s ''NaN'' \<or> py_startswith s ''Infinity''
                    \<or> py_startswith s ''-Infinity''
                 then Inl Unmodelled
                 else Inl JSONDecodeError))"
| "json_members 0 s pairs = Inl RecursionError"
| "json_members (Suc n) s pairs =
     (case scanstring s of
        Inl e \<Rightarrow> Inl e
      | Inr (key, r) \<Rightarrow>
          (case skip_ws r of
             [] \<Rightarrow> Inl JSONDecodeError
           | c # r1 \<Rightarrow>
               if c \<noteq> CHR '':'' then Inl JSONDecodeError
               else
                 (case json_value n (skip_ws r1) of
                    Inl e \<Rightarrow> Inl e
                  | Inr (v, r2) \<Rightarrow>
                      (case skip_ws r2 of
                         [] \<Rightarrow> Inl JSONDecodeError
                       | c' # r3 \<Rightarrow>
                           if c' = CHR ''}'' then Inr (PDict (py_dict (pairs @ [(key, v)])), r3)
                           else if c' = CHR '','' then
                             (case skip_ws r3 of
                                [] \<Rightarrow> Inl JSONDecodeError
                              | q # r4 \<Rightarrow>
                                  if q = CHR 0x22 then json_members n r4 (pairs @ [(key, v)])
                                  else Inl JSONDecodeError)
                           else Inl JSONDecodeError))))"
| "json_elements 0 s values = Inl RecursionError"
| "json_elements (Suc n) s values =
     (case json_value n s of
        Inl e \<Rightarrow> Inl e
      | Inr (v, r) \<Rightarrow>
          (case skip_ws r of
             [] \<Rightarrow> Inl JSONDecodeError
           | c # r1 \<Rightarrow>
               if c = CHR '']'' then Inr (PList (values @ [v]), r1)
               else if c = CHR '','' then json_elements n (skip_ws r1) (values @ [v])
               else Inl JSONDecodeError))"

definition json_loads :: "string \<Rightarrow> py_error + pyval" where
  "json_loads s =
     (case json_value (Suc (length s)) (skip_ws s) of
        Inl e \<Rightarrow> Inl e
      | Inr (v, r) \<Rightarrow> if skip_ws r = [] then Inr v else Inl JSONDecodeError)"

section \<open>The JSON parser: \<^verbatim>\<open>parse_json_benchmark\<close>\<close>

text \<open>
  \<^verbatim>\<open>data.get\<close> exists for a \<^verbatim>\<open>dict\<close> only and \<^verbatim>\<open>name.split\<close> for a \<^verbatim>\<open>str\<close> only:
  on a value of another type the attribute lookup raises \<^verbatim>\<open>AttributeError\<close>. The
  \<^verbatim>\<open>except\<close> clause turns \<^verbatim>\<open>JSONDecodeError\<close> and \<^verbatim>\<open>KeyError\<close> into \<^verbatim>\<open>None\<close>, and lets
  every other exception through.
\<close>

definition parse_json_benchmark :: "string \<Rightarrow> py_error + BenchmarkResult option" where
  "parse_json_benchmark line =
     (case
        (case json_loads line of
           Inl e \<Rightarrow> Inl e
         | Inr (PDict data) \<Rightarrow>
             (case dict_get data ''Name'' (PStr []) of
                PStr name' \<Rightarrow>
                  (let parts = py_split CHR ''/'' name'
                   in if length parts < 2 then Inr None
                      else
                        (let operation' = py_replace1 ''Benchmark'' [] (parts ! 0);
                             impl' = parts ! 1;
                             hive_size' = (if length parts \<ge> 3 then parts ! 2 else []);
                             variant = (if length parts \<ge> 4 then parts ! 3 else []);
                             display_name =
                               (if variant \<noteq> [] then operation' @ ''/'' @ variant
                                else operation')
                         in Inr (Some
                              \<lparr> name = name',
                                BenchmarkResult.operation = display_name,
                                BenchmarkResult.hive_size = hive_size',
                                impl = impl',
                                iterations = dict_get data ''N'' (PInt 0),
                                ns_per_op = dict_get data ''T'' (PFloat 0),
                                bytes_per_op = dict_get data ''B'' (PInt 0),
                                allocs_per_op = dict_get data ''A'' (PInt 0) \<rparr>)))
              | _ \<Rightarrow> Inl AttributeError)
         | Inr _ \<Rightarrow> Inl AttributeError)
      of
        Inl e \<Rightarrow> if e = JSONDecodeError \<or> e = KeyError then Inr None else Inl e
      | Inr result \<Rightarrow> Inr result)"

section \<open>The line parser: \<^verbatim>\<open>parse_benchmarks\<close>\<close>

text \<open>The body of the loop over the lines: the record to append, if any.\<close>

definition parse_line :: "string \<Rightarrow> py_error + BenchmarkResult option" where
  "parse_line raw =
     (let line = py_strip raw
      in if line = [] then Inr None
         else if py_startswith line ''{'' then
           (case parse_json_benchmark line of
              Inl e \<Rightarrow> Inl e
            | Inr (Some result) \<Rightarrow> Inr (Some result)
            | Inr None \<Rightarrow> parse_text_benchmark line)
         else parse_text_benchmark line)"

fun parse_benchmarks :: "string list \<Rightarrow> py_error + BenchmarkResult list" where
  "parse_benchmarks [] = Inr []"
| "parse_benchmarks (line # lines) =
     (case parse_line line of
        Inl e \<Rightarrow> Inl e
      | Inr result \<Rightarrow>
          (case parse_benchmarks lines of
             Inl e \<Rightarrow> Inl e
           | Inr results \<Rightarrow>
               Inr ((case result of None \<Rightarrow> [] | Some r \<Rightarrow> [r]) @ results)))"

section \<open>The aggregator: \<^verbatim>\<open>generate_comparisons\<close>\<close>

definition MUTATION_OPERATIONS :: "string set" where
  "MUTATION_OPERATIONS =
     {''NodeAddChild'', ''NodeSetValue'', ''NodeSetValues'', ''NodeDeleteChild'',
      ''Commit'', ''IntrospectionRecursive''}"

definition operation_base :: "BenchmarkResult \<Rightarrow> string" where
  "operation_base r = hd (py_split CHR ''/'' (BenchmarkResult.operation r))"

definition is_mutation :: "BenchmarkResult \<Rightarrow> bool" where
  "is_mutation r = (operation_base r \<in> MUTATION_OPERATIONS)"

text \<open>The two \<^verbatim>\<open>continue\<close> branches of the grouping loop.\<close>

definition skipped :: "string \<Rightarrow> BenchmarkResult \<Rightarrow> bool" where
  "skipped filter_type r =
     (if filter_type = ''standard'' \<and> is_mutation r then True
      else if filter_type = ''mutation'' \<and> \<not> is_mutation r then True
      else False)"

type_synonym group_key = "string \<times> string"

definition key_of :: "BenchmarkResult \<Rightarrow> group_key" where
  "key_of r = (BenchmarkResult.operation r, BenchmarkResult.hive_size r)"

text \<open>
  \<^verbatim>\<open>groups\<close> is a \<^verbatim>\<open>defaultdict(list)\<close>: an association list in the order in which
  the keys were first stored. \<^verbatim>\<open>groups[key].append(result)\<close>:
\<close>

fun groups_append ::
  "group_key \<Rightarrow> BenchmarkResult \<Rightarrow> (group_key \<times> BenchmarkResult list) list
    \<Rightarrow> (group_key \<times> BenchmarkResult list) list" where
  "groups_append k r [] = [(k, [r])]"
| "groups_append k r ((k', g) # gs) =
     (if k' = k then (k', g @ [r]) # gs else (k', g) # groups_append k r gs)"

definition group_step ::
  "string \<Rightarrow> BenchmarkResult \<Rightarrow> (group_key \<times> BenchmarkResult list) list
    \<Rightarrow> (group_key \<times> BenchmarkResult list) list" where
  "group_step filter_type r groups =
     (if skipped filter_type r then groups else groups_append (key_of r) r groups)"

definition group_results ::
  "string \<Rightarrow> BenchmarkResult list \<Rightarrow> (group_key \<times> BenchmarkResult list) list" where
  "group_results filter_type results = fold (group_step filter_type) results []"

text \<open>The inner loop over one group: the variables \<^verbatim>\<open>gohivex\<close> and \<^verbatim>\<open>hivex\<close>.\<close>

definition select_step ::
  "BenchmarkResult \<Rightarrow> BenchmarkResult option \<times> BenchmarkResult option
    \<Rightarrow> BenchmarkResult option \<times> BenchmarkResult option" where
  "select_step r sel =
     (if impl r = ''gohivex'' then (Some r, snd sel)
      else if impl r = ''hivex'' then (fst sel, Some r)
      else sel)"

definition select_impls ::
  "BenchmarkResult list \<Rightarrow> BenchmarkResult option \<times> BenchmarkResult option" where
  "select_impls grp = fold select_step grp (None, None)"

definition set_gohivex :: "BenchmarkResult option \<Rightarrow> ComparisonResult \<Rightarrow> ComparisonResult" where
  "set_gohivex gohivex cmp =
     (case gohivex of
        None \<Rightarrow> cmp
      | Some g \<Rightarrow> cmp\<lparr> gohivex_ns := ns_per_op g, gohivex_mem := bytes_per_op g,
                       gohivex_allocs := allocs_per_op g \<rparr>)"

definition set_hivex :: "BenchmarkResult option \<Rightarrow> ComparisonResult \<Rightarrow> ComparisonResult" where
  "set_hivex hivex cmp =
     (case hivex of
        None \<Rightarrow> cmp
      | Some h \<Rightarrow> cmp\<lparr> hivex_ns := ns_per_op h, hivex_mem := bytes_per_op h,
                       hivex_allocs := allocs_per_op h \<rparr>)"

definition set_only ::
  "BenchmarkResult option \<Rightarrow> BenchmarkResult option \<Rightarrow> ComparisonResult \<Rightarrow> ComparisonResult" where
  "set_only gohivex hivex cmp =
     (if gohivex \<noteq> None \<and> hivex = None then cmp\<lparr> gohivex_only := True \<rparr> else cmp)"

text \<open>
  \<^verbatim>\<open>if comp.gohivex_ns > 0 and comp.hivex_ns > 0: comp.speedup = comp.hivex_ns / comp.gohivex_ns\<close>.
  The second comparison is evaluated only when the first is true.
\<close>

definition set_speedup :: "ComparisonResult \<Rightarrow> py_error + ComparisonResult" where
  "set_speedup cmp =
     (case py_gt_zero (gohivex_ns cmp) of
        Inl e \<Rightarrow> Inl e
      | Inr False \<Rightarrow> Inr cmp
      | Inr True \<Rightarrow>
          (case py_gt_zero (hivex_ns cmp) of
             Inl e \<Rightarrow> Inl e
           | Inr False \<Rightarrow> Inr cmp
           | Inr True \<Rightarrow>
               (case py_truediv (hivex_ns cmp) (gohivex_ns cmp) of
                  Inl e \<Rightarrow> Inl e
                | Inr q \<Rightarrow> Inr (cmp\<lparr> speedup := q \<rparr>))))"

text \<open>The body of the loop over \<^verbatim>\<open>groups.items()\<close>.\<close>

definition build_comparison ::
  "group_key \<Rightarrow> BenchmarkResult list \<Rightarrow> py_error + ComparisonResult" where
  "build_comparison k grp =
     (let (gohivex, hivex) = select_impls grp;
          cmp = new_comparison (fst k) (snd k);
          cmp = set_gohivex gohivex cmp;
          cmp = set_hivex hivex cmp;
          cmp = set_only gohivex hivex cmp
      in set_speedup cmp)"

fun build_comparisons ::
  "(group_key \<times> BenchmarkResult list) list \<Rightarrow> py_error + ComparisonResult list" where
  "build_comparisons [] = Inr []"
| "build_comparisons ((k, grp) # groups) =
     (case build_comparison k grp of
        Inl e \<Rightarrow> Inl e
      | Inr cmp \<Rightarrow>
          (case build_comparisons groups of
             Inl e \<Rightarrow> Inl e
           | Inr comps \<Rightarrow> Inr (cmp # comps)))"

definition comparison_key :: "ComparisonResult \<Rightarrow> group_key" where
  "comparison_key c = (ComparisonResult.operation c, ComparisonResult.hive_size c)"

text \<open>\<^verbatim>\<open>comparisons.sort(key=...)\<close> is a stable sort, as \<^const>\<open>sort_key\<close> is.\<close>

definition generate_comparisons ::
  "BenchmarkResult list \<Rightarrow> string \<Rightarrow> py_error + ComparisonResult list" where
  "generate_comparisons results filter_type =
     (case build_comparisons (group_results filter_type results) of
        Inl e \<Rightarrow> Inl e
      | Inr comparisons \<Rightarrow> Inr (sort_key comparison_key comparisons))"

section \<open>Definitions used in the statements\<close>

text \<open>The group of a key: the records that the filter keeps and that have this key, in
  the order of the input (\<open>group_results_member\<close>).\<close>

definition group_of :: "string \<Rightarrow> BenchmarkResult list \<Rightarrow> group_key \<Rightarrow> BenchmarkResult list" where
  "group_of filter_type results k =
     filter (\<lambda>r. \<not> skipped filter_type r \<and> key_of r = k) results"

text \<open>The last record of a group with a given implementation tag, if there is one.\<close>

definition last_of :: "string \<Rightarrow> BenchmarkResult list \<Rightarrow> BenchmarkResult option" where
  "last_of tag grp =
     (let rs = filter (\<lambda>r. impl r = tag) grp in if rs = [] then None else Some (last rs))"

text \<open>A group cut down to its last gohivex record and its last hivex record.\<close>

definition last_records :: "BenchmarkResult list \<Rightarrow> BenchmarkResult list" where
  "last_records grp =
     (case last_of ''gohivex'' grp of None \<Rightarrow> [] | Some g \<Rightarrow> [g]) @
     (case last_of ''hivex'' grp of None \<Rightarrow> [] | Some h \<Rightarrow> [h])"

text \<open>The records that the grouping loop puts into a group.\<close>

definition grouped :: "string \<Rightarrow> BenchmarkResult list \<Rightarrow> BenchmarkResult list" where
  "grouped filter_type results = concat (map snd (group_results filter_type results))"

text \<open>The ComparisonResult of a group before \<^verbatim>\<open>speedup\<close> is computed.\<close>

definition before_speedup :: "group_key \<Rightarrow> BenchmarkResult list \<Rightarrow> ComparisonResult" where
  "before_speedup k grp =
     set_only (last_of ''gohivex'' grp) (last_of ''hivex'' grp)
       (set_hivex (last_of ''hivex'' grp)
         (set_gohivex (last_of ''gohivex'' grp) (new_comparison (fst k) (snd k))))"

text \<open>The records of Scenarios 1 and 2 of the specification, their comparison
  (Scenario 3), and variations of them.\<close>

definition scenario_gohivex :: BenchmarkResult where
  "scenario_gohivex =
     \<lparr> name = ''BenchmarkNodeGetChild/gohivex/medium'', BenchmarkResult.operation = ''NodeGetChild'',
       BenchmarkResult.hive_size = ''medium'', impl = ''gohivex'', iterations = PInt 1000000,
       ns_per_op = PFloat 120.5, bytes_per_op = PInt 48, allocs_per_op = PInt 2 \<rparr>"

definition scenario_hivex :: BenchmarkResult where
  "scenario_hivex =
     \<lparr> name = ''BenchmarkNodeGetChild/hivex/medium/'', BenchmarkResult.operation = ''NodeGetChild'',
       BenchmarkResult.hive_size = ''medium'', impl = ''hivex'', iterations = PInt 900000,
       ns_per_op = PFloat 150.2, bytes_per_op = PInt 64, allocs_per_op = PInt 3 \<rparr>"

definition scenario_comparison :: ComparisonResult where
  "scenario_comparison =
     \<lparr> ComparisonResult.operation = ''NodeGetChild'', ComparisonResult.hive_size = ''medium'',
       gohivex_ns = PFloat 120.5, hivex_ns = PFloat 150.2, speedup = PFloat (1502 / 1205),
       gohivex_mem = PInt 48, hivex_mem = PInt 64,
       gohivex_allocs = PInt 2, hivex_allocs = PInt 3,
       gohivex_only = False \<rparr>"

definition scenario_commit :: BenchmarkResult where
  "scenario_commit =
     \<lparr> name = ''BenchmarkCommit/gohivex/small/1KB'', BenchmarkResult.operation = ''Commit/1KB'',
       BenchmarkResult.hive_size = ''small'', impl = ''gohivex'', iterations = PInt 100,
       ns_per_op = PFloat 2000, bytes_per_op = PInt 4096, allocs_per_op = PInt 12 \<rparr>"

definition scenario_large :: BenchmarkResult where
  "scenario_large = scenario_hivex \<lparr> BenchmarkResult.hive_size := ''large'' \<rparr>"

definition scenario_rerun :: BenchmarkResult where
  "scenario_rerun = scenario_gohivex \<lparr> ns_per_op := PFloat 100, bytes_per_op := PInt 40 \<rparr>"

definition scenario_other :: BenchmarkResult where
  "scenario_other =
     \<lparr> name = ''BenchmarkNodeGetChild/other/medium'', BenchmarkResult.operation = ''NodeGetChild'',
       BenchmarkResult.hive_size = ''medium'', impl = ''other'', iterations = PInt 0,
       ns_per_op = PInt 5, bytes_per_op = PInt 0, allocs_per_op = PInt 0 \<rparr>"

text \<open>The groups that every match of a pattern sets.\<close>

fun always_set :: "regex \<Rightarrow> nat set" where
  "always_set (Grp n a) = insert n (always_set a)"
| "always_set (Seq a b) = always_set a \<union> always_set b"
| "always_set (Alt a b) = always_set a \<inter> always_set b"
| "always_set _ = {}"

text \<open>What the numeric groups of the pattern capture: digits for the groups 5, 7 and 8,
  digits and dots for group 6. \<open>numeric_pattern\<close> reads this off a pattern.\<close>

definition digits_text :: "string \<Rightarrow> bool" where
  "digits_text w = (w \<noteq> [] \<and> list_all isdigit w)"

definition decimal_text :: "string \<Rightarrow> bool" where
  "decimal_text w = (w \<noteq> [] \<and> list_all (\<lambda>c. isdigit c \<or> c = CHR ''.'') w)"

definition numeric_groups :: "groups \<Rightarrow> bool" where
  "numeric_groups g =
     ((case g 5 of None \<Rightarrow> True | Some w \<Rightarrow> digits_text w)
      \<and> (case g 6 of None \<Rightarrow> True | Some w \<Rightarrow> decimal_text w)
      \<and> (case g 7 of None \<Rightarrow> True | Some w \<Rightarrow> digits_text w)
      \<and> (case g 8 of None \<Rightarrow> True | Some w \<Rightarrow> digits_text w))"

fun numeric_pattern :: "regex \<Rightarrow> bool" where
  "numeric_pattern (Grp n a) =
     (if n = 5 \<or> n = 7 \<or> n = 8 then a = Plus Digit
      else if n = 6 then a = Plus DigitOrDot
      else numeric_pattern a)"
| "numeric_pattern (Seq a b) = (numeric_pattern a \<and> numeric_pattern b)"
| "numeric_pattern (Alt a b) = (numeric_pattern a \<and> numeric_pattern b)"
| "numeric_pattern (Opt a) = numeric_pattern a"
| "numeric_pattern _ = True"

section \<open>Properties of the string methods\<close>

lemma py_split_nonempty: "py_split c s \<noteq> []"
  by (induction s) (auto split: list.splits)

lemma hd_py_split: "hd (py_split c s) = takeWhile (\<lambda>x. x \<noteq> c) s"
  by (induction s) (auto simp: py_split_nonempty split: list.splits)

lemma py_startswith_take: "py_startswith s p \<longleftrightarrow> take (length p) s = p"
  by (induction s p rule: py_startswith.induct) auto

lemma py_replace1_prefix:
  assumes "old \<noteq> []"
  shows "py_replace1 old new (old @ b) = new @ b"
proof -
  obtain x xs where s: "old @ b = x # xs" using assms by (cases "old @ b") auto
  have "py_startswith (old @ b) old" by (simp add: py_startswith_take)
  then show ?thesis using s by (metis py_replace1.simps(2) append_eq_conv_conj)
qed

lemma py_replace1_leftmost:
  assumes "old \<noteq> []"
    and "\<forall>i < length a. \<not> py_startswith (drop i (a @ old @ b)) old"
  shows "py_replace1 old new (a @ old @ b) = a @ new @ b"
  using assms(2)
proof (induction a)
  case Nil
  then show ?case using py_replace1_prefix [OF assms(1)] by simp
next
  case (Cons x a)
  from Cons.prems have first: "\<not> py_startswith (x # a @ old @ b) old" by force
  have rest: "\<forall>i < length a. \<not> py_startswith (drop i (a @ old @ b)) old"
  proof (intro allI impI)
    fix i assume "i < length a"
    then have "Suc i < length (x # a)" by simp
    with Cons.prems have "\<not> py_startswith (drop (Suc i) ((x # a) @ old @ b)) old" by blast
    then show "\<not> py_startswith (drop i (a @ old @ b)) old" by simp
  qed
  show ?case using first Cons.IH [OF rest] by simp
qed

lemma py_replace1_absent:
  assumes "\<forall>i < length s. \<not> py_startswith (drop i s) old"
  shows "py_replace1 old new s = s"
  using assms
proof (induction s)
  case Nil
  then show ?case by simp
next
  case (Cons x s)
  from Cons.prems have first: "\<not> py_startswith (x # s) old" by force
  have rest: "\<forall>i < length s. \<not> py_startswith (drop i s) old"
  proof (intro allI impI)
    fix i assume "i < length s"
    then have "Suc i < length (x # s)" by simp
    with Cons.prems have "\<not> py_startswith (drop (Suc i) (x # s)) old" by blast
    then show "\<not> py_startswith (drop i s) old" by simp
  qed
  show ?case using first Cons.IH [OF rest] by simp
qed

lemma string_order:
  "([] :: string) < y # ys" "\<not> x # xs < ([] :: string)"
  "(x # xs :: string) < y # ys \<longleftrightarrow> (of_char x :: nat) < of_char y \<or> x = y \<and> xs < ys"
  by (auto simp: less_char_def)

section \<open>Properties of the text parser\<close>

lemma plus_greedy_split:
  "r \<in> set (plus_greedy k s) \<Longrightarrow> \<exists>w. s = w @ r \<and> w \<noteq> [] \<and> list_all (in_class k) w"
proof (induction s)
  case Nil
  then show ?case by simp
next
  case (Cons x s)
  show ?case
  proof (cases "in_class k x")
    case False
    then show ?thesis using Cons.prems by simp
  next
    case True
    with Cons.prems consider "r \<in> set (plus_greedy k s)" | "r = s" by auto
    then show ?thesis
    proof cases
      case 1
      from Cons.IH [OF 1] obtain w where "s = w @ r" "list_all (in_class k) w" by blast
      then have "x # s = (x # w) @ r \<and> x # w \<noteq> [] \<and> list_all (in_class k) (x # w)"
        using True by simp
      then show ?thesis by blast
    next
      case 2
      then have "x # s = [x] @ r \<and> [x] \<noteq> [] \<and> list_all (in_class k) [x]"
        using True by simp
      then show ?thesis by blast
    qed
  qed
qed

lemma dom_rmatch:
  "(s', g') \<in> set (rmatch r (s, g)) \<Longrightarrow> dom g \<union> always_set r \<subseteq> dom g'"
proof (induction r arbitrary: s g s' g')
  case (Seq a b)
  from Seq.prems obtain s1 g1 where
    1: "(s1, g1) \<in> set (rmatch a (s, g))" and 2: "(s', g') \<in> set (rmatch b (s1, g1))"
    by auto
  from Seq.IH(1) [OF 1] Seq.IH(2) [OF 2] show ?case by (simp add: subset_iff)
next
  case (Alt a b)
  then show ?case by fastforce
next
  case (Opt a)
  then show ?case by fastforce
next
  case (Grp n a)
  from Grp.prems obtain g1 where
    1: "(s', g1) \<in> set (rmatch a (s, g))"
    and 2: "g' = g1(n \<mapsto> take (length s - length s') s)"
    by auto
  from Grp.IH [OF 1] 2 show ?case by auto
qed (auto split: list.splits if_splits)

lemma numeric_rmatch:
  "(s', g') \<in> set (rmatch r (s, g)) \<Longrightarrow> numeric_pattern r \<Longrightarrow> numeric_groups g
     \<Longrightarrow> numeric_groups g'"
proof (induction r arbitrary: s g s' g')
  case (Seq a b)
  from Seq.prems(1) obtain s1 g1 where
    1: "(s1, g1) \<in> set (rmatch a (s, g))" and 2: "(s', g') \<in> set (rmatch b (s1, g1))"
    by auto
  from Seq.prems(2) have a: "numeric_pattern a" and b: "numeric_pattern b" by simp_all
  from Seq.IH(2) [OF 2 b Seq.IH(1) [OF 1 a Seq.prems(3)]] show ?case .
next
  case (Alt a b)
  then show ?case by fastforce
next
  case (Opt a)
  then show ?case by fastforce
next
  case (Grp n a)
  from Grp.prems(1) obtain g1 where
    1: "(s', g1) \<in> set (rmatch a (s, g))"
    and 2: "g' = g1(n \<mapsto> take (length s - length s') s)"
    by auto
  consider (digits) "n = 5 \<or> n = 7 \<or> n = 8" | (decimal) "n = 6"
    | (other) "n \<noteq> 5" "n \<noteq> 6" "n \<noteq> 7" "n \<noteq> 8"
    by blast
  then show ?case
  proof cases
    case digits
    with Grp.prems(2) have a: "a = Plus Digit" by simp
    with 1 have g1: "g1 = g" and "s' \<in> set (plus_greedy Digit s)" by auto
    from plus_greedy_split [OF this(2)] obtain w where
      w: "s = w @ s'" "w \<noteq> []" "list_all (in_class Digit) w" by blast
    then have "take (length s - length s') s = w" by simp
    moreover have "digits_text w" using w by (simp add: digits_text_def list_all_iff)
    ultimately show ?thesis using 2 g1 Grp.prems(3) digits
      by (auto simp: numeric_groups_def)
  next
    case decimal
    with Grp.prems(2) have a: "a = Plus DigitOrDot" by simp
    with 1 have g1: "g1 = g" and "s' \<in> set (plus_greedy DigitOrDot s)" by auto
    from plus_greedy_split [OF this(2)] obtain w where
      w: "s = w @ s'" "w \<noteq> []" "list_all (in_class DigitOrDot) w" by blast
    then have "take (length s - length s') s = w" by simp
    moreover have "decimal_text w" using w by (simp add: decimal_text_def list_all_iff)
    ultimately show ?thesis using 2 g1 Grp.prems(3) decimal
      by (auto simp: numeric_groups_def)
  next
    case other
    with Grp.prems(2) have "numeric_pattern a" by simp
    from Grp.IH [OF 1 this Grp.prems(3)] show ?thesis using 2 other
      by (auto simp: numeric_groups_def)
  qed
qed (auto split: list.splits if_splits)

lemma pattern_always_set: "{1, 2, 3, 5, 6} \<subseteq> always_set pattern"
  by (simp add: pattern_def Cat_def Str_def)

lemma pattern_numeric: "numeric_pattern pattern"
  by (simp add: pattern_def Cat_def Str_def)

lemma re_match_pattern:
  assumes "re_match pattern line = Some g"
  shows "numeric_groups g" and "{1, 2, 3, 5, 6} \<subseteq> dom g"
proof -
  from assms obtain r where m: "(r, g) \<in> set (rmatch pattern (line, Map.empty))"
    by (auto simp: re_match_def split: list.splits)
  show "numeric_groups g"
    using numeric_rmatch [OF m pattern_numeric] by (simp add: numeric_groups_def)
  show "{1, 2, 3, 5, 6} \<subseteq> dom g"
    using dom_rmatch [OF m] pattern_always_set by blast
qed

lemma py_int_digits: "digits_text w \<Longrightarrow> \<exists>v. py_int w = Inr v"
  by (simp add: py_int_def digits_text_def)

lemma py_float_decimal: "decimal_text w \<Longrightarrow> py_float w = Inl ValueError \<or> (\<exists>v. py_float w = Inr v)"
  by (simp add: py_float_def decimal_text_def Let_def)

lemma py_float_number: "py_float w = Inr v \<Longrightarrow> py_number v \<noteq> None"
  by (auto simp: py_float_def Let_def split: if_splits)

text \<open>
  The text parser raises \<^verbatim>\<open>ValueError\<close> and nothing else: each group that the code
  converts holds a text made for \<^verbatim>\<open>int\<close> or \<^verbatim>\<open>float\<close>, and each group that it reads as
  a string is set by every match.
\<close>

lemma parse_text_benchmark_raises:
  assumes "parse_text_benchmark line = Inl e"
  shows "e = ValueError"
proof -
  from assms obtain g where m: "re_match pattern line = Some g"
    by (auto simp: parse_text_benchmark_def split: option.splits)
  note n = re_match_pattern(1) [OF m] and d = re_match_pattern(2) [OF m]
  from d obtain w1 w2 w3 w5 w6 where
    g: "g 1 = Some w1" "g 2 = Some w2" "g 3 = Some w3" "g 5 = Some w5" "g 6 = Some w6"
    by (auto simp: dom_def)
  from n g have "digits_text w5" "decimal_text w6" by (simp_all add: numeric_groups_def)
  from py_int_digits [OF this(1)] py_float_decimal [OF this(2)]
  obtain v5 where i: "py_int w5 = Inr v5"
    and f: "py_float w6 = Inl ValueError \<or> (\<exists>v. py_float w6 = Inr v)" by blast
  have g7: "g 7 = None \<or> (\<exists>w v. g 7 = Some w \<and> py_int w = Inr v)"
    using n py_int_digits by (cases "g 7") (auto simp: numeric_groups_def)
  have g8: "g 8 = None \<or> (\<exists>w v. g 8 = Some w \<and> py_int w = Inr v)"
    using n py_int_digits by (cases "g 8") (auto simp: numeric_groups_def)
  show ?thesis
    using assms m g i f g7 g8
    by (auto simp: parse_text_benchmark_def Let_def split: sum.splits)
qed

lemma parse_text_benchmark_number:
  assumes "parse_text_benchmark line = Inr (Some r)"
  shows "py_number (ns_per_op r) \<noteq> None"
  using assms
  by (auto simp: parse_text_benchmark_def Let_def dest: py_float_number
      split: option.splits sum.splits)

text \<open>The groups of the match on the text line of Scenario 2, as \<^verbatim>\<open>match.groups()\<close>
  lists them.\<close>

lemma text_scenario_match:
  "map_option (\<lambda>g. map g [1, 2, 3, 4, 5, 6, 7, 8])
     (re_match pattern
        ''BenchmarkNodeGetChild/hivex/medium-8  900000  150.2 ns/op  64 B/op  3 allocs/op'')
   = Some [Some ''NodeGetChild'', Some ''hivex'', Some ''medium'', None, Some ''900000'',
           Some ''150.2'', Some ''64'', Some ''3'']"
  by code_simp

text \<open>
  Claim C8. The text line of Scenario 2 is parsed to exactly one record, with operation
  \<^verbatim>\<open>NodeGetChild\<close>, implementation \<^verbatim>\<open>hivex\<close>, size category \<^verbatim>\<open>medium\<close>, 150.2
  nanoseconds, 64 bytes and 3 allocations per operation.
\<close>

theorem text_scenario:
  "parse_benchmarks
     [''BenchmarkNodeGetChild/hivex/medium-8  900000  150.2 ns/op  64 B/op  3 allocs/op'']
   = Inr [\<lparr> name = ''BenchmarkNodeGetChild/hivex/medium/'',
             BenchmarkResult.operation = ''NodeGetChild'',
             BenchmarkResult.hive_size = ''medium'', impl = ''hivex'',
             iterations = PInt 900000, ns_per_op = PFloat 150.2,
             bytes_per_op = PInt 64, allocs_per_op = PInt 3 \<rparr>]"
proof -
  let ?line = "''BenchmarkNodeGetChild/hivex/medium-8  900000  150.2 ns/op  64 B/op  3 allocs/op''"
  have strip: "py_strip ?line = ?line"
    by code_simp
  have parsed: "parse_text_benchmark ?line = Inr (Some scenario_hivex)"
    by code_simp
  show ?thesis
    by (simp add: parse_line_def strip parsed scenario_hivex_def)
qed

section \<open>Properties of the JSON parser and of the line parser\<close>

lemma parse_json_benchmark_Some:
  assumes "parse_json_benchmark line = Inr (Some r)"
  obtains data where "json_loads line = Inr (PDict data)"
    and "dict_get data ''Name'' (PStr []) = PStr (name r)"
    and "length (py_split CHR ''/'' (name r)) \<ge> 2"
    and "impl r = py_split CHR ''/'' (name r) ! 1"
    and "BenchmarkResult.hive_size r =
           (if length (py_split CHR ''/'' (name r)) \<ge> 3 then py_split CHR ''/'' (name r) ! 2 else [])"
    and "BenchmarkResult.operation r =
           (let parts = py_split CHR ''/'' (name r);
                base = py_replace1 ''Benchmark'' [] (parts ! 0);
                variant = (if length parts \<ge> 4 then parts ! 3 else [])
            in if variant \<noteq> [] then base @ ''/'' @ variant else base)"
    and "iterations r = dict_get data ''N'' (PInt 0)"
    and "ns_per_op r = dict_get data ''T'' (PFloat 0)"
    and "bytes_per_op r = dict_get data ''B'' (PInt 0)"
    and "allocs_per_op r = dict_get data ''A'' (PInt 0)"
  using assms
  by (auto simp: parse_json_benchmark_def Let_def
      split: sum.splits pyval.splits if_splits)

lemma parse_json_benchmark_dict:
  assumes "json_loads line = Inr (PDict data)"
    and "dict_get data ''Name'' (PStr []) = PStr nm"
    and "length (py_split CHR ''/'' nm) \<ge> 2"
  shows "parse_json_benchmark line = Inr (Some
           \<lparr> name = nm,
             BenchmarkResult.operation =
               (let parts = py_split CHR ''/'' nm;
                    base = py_replace1 ''Benchmark'' [] (parts ! 0);
                    variant = (if length parts \<ge> 4 then parts ! 3 else [])
                in if variant \<noteq> [] then base @ ''/'' @ variant else base),
             BenchmarkResult.hive_size =
               (if length (py_split CHR ''/'' nm) \<ge> 3 then py_split CHR ''/'' nm ! 2 else []),
             impl = py_split CHR ''/'' nm ! 1,
             iterations = dict_get data ''N'' (PInt 0),
             ns_per_op = dict_get data ''T'' (PFloat 0),
             bytes_per_op = dict_get data ''B'' (PInt 0),
             allocs_per_op = dict_get data ''A'' (PInt 0) \<rparr>)"
  using assms by (simp add: parse_json_benchmark_def Let_def)

lemma parse_line_json:
  assumes "py_strip raw = line" and "py_startswith line ''{''"
    and "parse_json_benchmark line = Inr (Some r)"
  shows "parse_line raw = Inr (Some r)"
proof -
  from assms(2) have "line \<noteq> []" by auto
  then show ?thesis using assms by (simp add: parse_line_def)
qed

text \<open>
  The only exceptions that leave the line parser are \<^verbatim>\<open>AttributeError\<close>, from a JSON
  value on which \<^verbatim>\<open>get\<close> or \<^verbatim>\<open>split\<close> does not exist, \<^verbatim>\<open>ValueError\<close> from
  \<^verbatim>\<open>float\<close>, and what the decoder raises other than \<^verbatim>\<open>JSONDecodeError\<close>.
\<close>

lemma parse_json_benchmark_raises:
  assumes "parse_json_benchmark line = Inl e"
  shows "e = AttributeError \<or> (json_loads line = Inl e \<and> e \<noteq> JSONDecodeError)"
  using assms
  by (cases "json_loads line")
     (auto simp: parse_json_benchmark_def Let_def split: pyval.splits if_splits)

lemma parse_line_raises:
  assumes "parse_line raw = Inl e"
  shows "e = AttributeError \<or> e = ValueError
         \<or> (json_loads (py_strip raw) = Inl e \<and> e \<noteq> JSONDecodeError)"
proof -
  let ?line = "py_strip raw"
  from assms consider "parse_json_benchmark ?line = Inl e" | "parse_text_benchmark ?line = Inl e"
    by (auto simp: parse_line_def Let_def split: if_splits sum.splits option.splits)
  then show ?thesis
  proof cases
    case 1
    from parse_json_benchmark_raises [OF 1] show ?thesis by blast
  next
    case 2
    from parse_text_benchmark_raises [OF 2] show ?thesis by blast
  qed
qed

lemmas json_eval = json_loads_def skip_ws_def json_ws_def scan_integer_def scan_frac_def
  scan_exp_def match_number_def isdigit_def digits_value_def digit_value_def py_dict_def
  BACKSLASH_def hex_value_def

lemma json_loads_number_name:
  \<open>json_loads ''{"Name": 5}'' = Inr (PDict [(''Name'', PInt 5)])\<close>
  by (simp add: json_eval)

lemma json_loads_inner_prefix:
  \<open>json_loads ''{"Name": "XBenchmarkY/hivex"}'' = Inr (PDict [(''Name'', PStr ''XBenchmarkY/hivex'')])\<close>
  by (simp add: json_eval)

lemma json_loads_scenario:
  \<open>json_loads
      ''{"Name":"BenchmarkNodeGetChild/gohivex/medium","N":1000000,"T":120.5,"B":48,"A":2}''
     = Inr (PDict [(''Name'', PStr ''BenchmarkNodeGetChild/gohivex/medium''),
                   (''N'', PInt 1000000), (''T'', PFloat 120.5), (''B'', PInt 48),
                   (''A'', PInt 2)])\<close>
  by (simp add: json_eval)

lemma json_loads_unknown_tag:
  \<open>json_loads ''{"Name": "BenchmarkNodeGetChild/other/medium", "T": 5}''
     = Inr (PDict [(''Name'', PStr ''BenchmarkNodeGetChild/other/medium''), (''T'', PInt 5)])\<close>
  by (simp add: json_eval)

lemma json_loads_name_only:
  \<open>json_loads ''{"Name": "BenchmarkNodeGetChild/gohivex/medium"}''
     = Inr (PDict [(''Name'', PStr ''BenchmarkNodeGetChild/gohivex/medium'')])\<close>
  by (simp add: json_eval)

lemma parse_json_scenario:
  \<open>parse_json_benchmark
      ''{"Name":"BenchmarkNodeGetChild/gohivex/medium","N":1000000,"T":120.5,"B":48,"A":2}''
     = Inr (Some scenario_gohivex)\<close>
proof -
  have n: "dict_get [(''Name'', PStr ''BenchmarkNodeGetChild/gohivex/medium''),
                   (''N'', PInt 1000000), (''T'', PFloat 120.5), (''B'', PInt 48),
                   (''A'', PInt 2)] ''Name'' (PStr [])
             = PStr ''BenchmarkNodeGetChild/gohivex/medium''"
    by (simp add: dict_get_def)
  have l: "length (py_split CHR ''/'' ''BenchmarkNodeGetChild/gohivex/medium'') \<ge> 2"
    by simp
  show ?thesis
    unfolding parse_json_benchmark_dict [OF json_loads_scenario n l]
    by (simp add: scenario_gohivex_def dict_get_def)
qed

lemma parse_json_other:
  \<open>parse_json_benchmark ''{"Name": "BenchmarkNodeGetChild/other/medium", "T": 5}''
     = Inr (Some scenario_other)\<close>
proof -
  have n: "dict_get [(''Name'', PStr ''BenchmarkNodeGetChild/other/medium''), (''T'', PInt 5)]
        ''Name'' (PStr []) = PStr ''BenchmarkNodeGetChild/other/medium''"
    by (simp add: dict_get_def)
  have l: "length (py_split CHR ''/'' ''BenchmarkNodeGetChild/other/medium'') \<ge> 2"
    by simp
  show ?thesis
    unfolding parse_json_benchmark_dict [OF json_loads_unknown_tag n l]
    by (simp add: scenario_other_def dict_get_def)
qed

text \<open>
  Claim C1. The claim is that the line parser returns a record or no match for every
  line and never raises. The code raises on these two lines: a JSON object whose
  \<^verbatim>\<open>Name\<close> is a number raises \<^verbatim>\<open>AttributeError\<close> at \<^verbatim>\<open>name.split\<close>, which the
  \<^verbatim>\<open>except\<close> clause does not catch, and a text line whose time is \<^verbatim>\<open>1.2.3\<close> matches
  the pattern and raises \<^verbatim>\<open>ValueError\<close> at \<^verbatim>\<open>float\<close>.
\<close>

theorem parser_raises:
  \<open>parse_json_benchmark ''{"Name": 5}'' = Inl AttributeError
   \<and> parse_benchmarks [''{"Name": 5}''] = Inl AttributeError
   \<and> parse_text_benchmark ''BenchmarkA/hivex/s-1 1 1.2.3 ns/op'' = Inl ValueError
   \<and> parse_benchmarks [''BenchmarkA/hivex/s-1 1 1.2.3 ns/op''] = Inl ValueError\<close>
proof -
  have j: \<open>parse_json_benchmark ''{"Name": 5}'' = Inl AttributeError\<close>
    by (simp add: parse_json_benchmark_def json_loads_number_name dict_get_def)
  have s: \<open>py_strip ''{"Name": 5}'' = ''{"Name": 5}''\<close>
    by code_simp
  have t: \<open>parse_text_benchmark ''BenchmarkA/hivex/s-1 1 1.2.3 ns/op'' = Inl ValueError\<close>
    by code_simp
  have s': \<open>py_strip ''BenchmarkA/hivex/s-1 1 1.2.3 ns/op'' = ''BenchmarkA/hivex/s-1 1 1.2.3 ns/op''\<close>
    by code_simp
  show ?thesis using j t by (simp add: parse_line_def s s')
qed

text \<open>
  Claim C2. The operation name is to be segment 0 of \<^verbatim>\<open>Name\<close> with the prefix
  \<^verbatim>\<open>Benchmark\<close> stripped from the front only, a segment 0 that does not start with
  \<^verbatim>\<open>Benchmark\<close> being left unchanged. The code calls \<^verbatim>\<open>replace('Benchmark', '', 1)\<close>,
  which removes the leftmost occurrence wherever it is: on the name
  \<^verbatim>\<open>XBenchmarkY/hivex\<close> segment 0 does not start with \<^verbatim>\<open>Benchmark\<close>, and the operation
  name is \<^verbatim>\<open>XY\<close>. The text parser, whose pattern is anchored at \<^verbatim>\<open>Benchmark\<close>, does not
  match a line with this name.
\<close>

theorem operation_prefix_slip:
  \<open>parse_json_benchmark ''{"Name": "XBenchmarkY/hivex"}'' =
     Inr (Some \<lparr> name = ''XBenchmarkY/hivex'', BenchmarkResult.operation = ''XY'',
                 BenchmarkResult.hive_size = [], impl = ''hivex'', iterations = PInt 0,
                 ns_per_op = PFloat 0, bytes_per_op = PInt 0, allocs_per_op = PInt 0 \<rparr>)
   \<and> py_split CHR ''/'' ''XBenchmarkY/hivex'' ! 0 = ''XBenchmarkY''
   \<and> \<not> py_startswith ''XBenchmarkY'' ''Benchmark''
   \<and> ''XY'' \<noteq> ''XBenchmarkY''
   \<and> parse_text_benchmark ''XBenchmarkY/hivex/medium-8 900000 150.2 ns/op'' = Inr None\<close>
proof -
  have n: "dict_get [(''Name'', PStr ''XBenchmarkY/hivex'')] ''Name'' (PStr [])
             = PStr ''XBenchmarkY/hivex''"
    by (simp add: dict_get_def)
  have l: "length (py_split CHR ''/'' ''XBenchmarkY/hivex'') \<ge> 2"
    by simp
  have t: "parse_text_benchmark ''XBenchmarkY/hivex/medium-8 900000 150.2 ns/op'' = Inr None"
    by code_simp
  show ?thesis
    unfolding parse_json_benchmark_dict [OF json_loads_inner_prefix n l] t
    by (simp add: dict_get_def)
qed

text \<open>
  What the JSON parser computes: the operation name is segment 0 of \<^verbatim>\<open>Name\<close> after
  \<open>py_replace1\<close>, followed by \<^verbatim>\<open>/\<close> and segment 3 when there is a non-empty segment 3.
  On a segment 0 that starts with \<^verbatim>\<open>Benchmark\<close> this strips the prefix, and a segment 0
  in which \<^verbatim>\<open>Benchmark\<close> does not occur is left unchanged.
\<close>

lemma parse_json_benchmark_operation:
  assumes "parse_json_benchmark line = Inr (Some r)"
  shows "let parts = py_split CHR ''/'' (name r);
             base = py_replace1 ''Benchmark'' [] (parts ! 0);
             variant = (if length parts \<ge> 4 then parts ! 3 else [])
         in BenchmarkResult.operation r = (if variant \<noteq> [] then base @ ''/'' @ variant else base)
          \<and> (\<forall>b. parts ! 0 = ''Benchmark'' @ b \<longrightarrow> base = b)
          \<and> ((\<forall>i < length (parts ! 0). \<not> py_startswith (drop i (parts ! 0)) ''Benchmark'')
               \<longrightarrow> base = parts ! 0)
          \<and> (\<forall>a b. parts ! 0 = a @ ''Benchmark'' @ b
                 \<and> (\<forall>i < length a. \<not> py_startswith (drop i (parts ! 0)) ''Benchmark'')
               \<longrightarrow> base = a @ b)"
proof -
  let ?seg = "py_split CHR ''/'' (name r) ! 0"
  let ?base = "py_replace1 ''Benchmark'' [] ?seg"
  from assms have op: "BenchmarkResult.operation r =
           (let parts = py_split CHR ''/'' (name r);
                base = py_replace1 ''Benchmark'' [] (parts ! 0);
                variant = (if length parts \<ge> 4 then parts ! 3 else [])
            in if variant \<noteq> [] then base @ ''/'' @ variant else base)"
    by (rule parse_json_benchmark_Some)
  have pre: "?base = b" if "?seg = ''Benchmark'' @ b" for b
    using py_replace1_prefix [of "''Benchmark''" "[]" b] that by simp
  have absent: "?base = ?seg"
    if "\<forall>i < length ?seg. \<not> py_startswith (drop i ?seg) ''Benchmark''"
    using py_replace1_absent [OF that] .
  have left: "?base = a @ b"
    if "?seg = a @ ''Benchmark'' @ b"
      and "\<forall>i < length a. \<not> py_startswith (drop i ?seg) ''Benchmark''" for a b
  proof -
    from that(2) have "\<forall>i < length a. \<not> py_startswith (drop i (a @ ''Benchmark'' @ b)) ''Benchmark''"
      unfolding that(1) .
    from py_replace1_leftmost [OF _ this, of "[]"] show ?thesis unfolding that(1) by simp
  qed
  show ?thesis
    unfolding Let_def
  proof (intro conjI allI impI)
    show "BenchmarkResult.operation r =
      (if (if 4 \<le> length (py_split CHR ''/'' (name r)) then py_split CHR ''/'' (name r) ! 3 else []) \<noteq> []
       then ?base @ ''/'' @ (if 4 \<le> length (py_split CHR ''/'' (name r)) then py_split CHR ''/'' (name r) ! 3 else [])
       else ?base)"
      using op by (simp add: Let_def)
  next
    fix b assume "?seg = ''Benchmark'' @ b"
    then show "?base = b" by (rule pre)
  next
    assume "\<forall>i < length ?seg. \<not> py_startswith (drop i ?seg) ''Benchmark''"
    then show "?base = ?seg" by (rule absent)
  next
    fix a b
    assume "?seg = a @ ''Benchmark'' @ b
       \<and> (\<forall>i < length a. \<not> py_startswith (drop i ?seg) ''Benchmark'')"
    then show "?base = a @ b" using left by blast
  qed
qed

text \<open>
  Claim C10. A JSON line whose \<^verbatim>\<open>Name\<close> is a string of at least two segments is parsed
  to a record whichever of the keys \<^verbatim>\<open>N\<close>, \<^verbatim>\<open>T\<close>, \<^verbatim>\<open>B\<close> and \<^verbatim>\<open>A\<close> it lacks: the field of a
  missing key is \<^verbatim>\<open>0\<close>, or \<^verbatim>\<open>0.0\<close> for \<^verbatim>\<open>T\<close>, and the line parser appends the record.
\<close>

theorem missing_keys_default:
  assumes "json_loads line = Inr (PDict data)"
    and "dict_get data ''Name'' (PStr []) = PStr nm"
    and "length (py_split CHR ''/'' nm) \<ge> 2"
  shows "\<exists>r. parse_json_benchmark line = Inr (Some r)
           \<and> (map_of data ''N'' = None \<longrightarrow> iterations r = PInt 0)
           \<and> (map_of data ''T'' = None \<longrightarrow> ns_per_op r = PFloat 0)
           \<and> (map_of data ''B'' = None \<longrightarrow> bytes_per_op r = PInt 0)
           \<and> (map_of data ''A'' = None \<longrightarrow> allocs_per_op r = PInt 0)
           \<and> (\<forall>raw. py_strip raw = line \<and> py_startswith line ''{''
                 \<longrightarrow> parse_benchmarks [raw] = Inr [r])"
proof -
  from parse_json_benchmark_dict [OF assms] obtain r where
    p: "parse_json_benchmark line = Inr (Some r)"
    and f: "iterations r = dict_get data ''N'' (PInt 0)"
      "ns_per_op r = dict_get data ''T'' (PFloat 0)"
      "bytes_per_op r = dict_get data ''B'' (PInt 0)"
      "allocs_per_op r = dict_get data ''A'' (PInt 0)"
    by simp
  have "parse_benchmarks [raw] = Inr [r]"
    if "py_strip raw = line \<and> py_startswith line ''{''" for raw
    using parse_line_json [of raw line r] that p by simp
  then show ?thesis using p f by (auto simp: dict_get_def)
qed

theorem missing_keys_default_witness:
  \<open>json_loads ''{"Name": "BenchmarkNodeGetChild/gohivex/medium"}''
     = Inr (PDict [(''Name'', PStr ''BenchmarkNodeGetChild/gohivex/medium'')])
   \<and> dict_get [(''Name'', PStr ''BenchmarkNodeGetChild/gohivex/medium'')] ''Name'' (PStr [])
       = PStr ''BenchmarkNodeGetChild/gohivex/medium''
   \<and> length (py_split CHR ''/'' ''BenchmarkNodeGetChild/gohivex/medium'') \<ge> 2
   \<and> map_of [(''Name'', PStr ''BenchmarkNodeGetChild/gohivex/medium'')] ''T'' = None
   \<and> (\<exists>r. parse_json_benchmark ''{"Name": "BenchmarkNodeGetChild/gohivex/medium"}''
              = Inr (Some r)
          \<and> iterations r = PInt 0 \<and> ns_per_op r = PFloat 0
          \<and> bytes_per_op r = PInt 0 \<and> allocs_per_op r = PInt 0)\<close>
proof -
  have n: "dict_get [(''Name'', PStr ''BenchmarkNodeGetChild/gohivex/medium'')] ''Name'' (PStr [])
       = PStr ''BenchmarkNodeGetChild/gohivex/medium''"
    by (simp add: dict_get_def)
  have l: "length (py_split CHR ''/'' ''BenchmarkNodeGetChild/gohivex/medium'') \<ge> 2"
    by simp
  show ?thesis
    using json_loads_name_only n l missing_keys_default [OF json_loads_name_only n l]
    by auto
qed

section \<open>Properties of the aggregator\<close>

subsection \<open>The groups\<close>

lemma map_of_groups_append:
  "map_of (groups_append k r gs) =
     (map_of gs)(k \<mapsto> (case map_of gs k of None \<Rightarrow> [r] | Some g \<Rightarrow> g @ [r]))"
  by (induction gs) (auto simp: fun_eq_iff)

lemma keys_groups_append:
  "map fst (groups_append k r gs) =
     (if k \<in> set (map fst gs) then map fst gs else map fst gs @ [k])"
  by (induction gs) (force simp: image_iff)+

lemma distinct_groups_append:
  "distinct (map fst gs) \<Longrightarrow> distinct (map fst (groups_append k r gs))"
  by (simp add: keys_groups_append)

lemma group_results_snoc:
  "group_results ft (rs @ [r]) = group_step ft r (group_results ft rs)"
  by (simp add: group_results_def)

lemma distinct_group_results: "distinct (map fst (group_results ft rs))"
proof (induction rs rule: rev_induct)
  case Nil
  then show ?case by (simp add: group_results_def)
next
  case (snoc r rs)
  then show ?case
    by (simp add: group_results_snoc group_step_def distinct_groups_append)
qed

lemma map_of_group_results:
  "map_of (group_results ft rs) k =
     (if group_of ft rs k = [] then None else Some (group_of ft rs k))"
proof (induction rs rule: rev_induct)
  case Nil
  then show ?case by (simp add: group_results_def group_of_def)
next
  case (snoc r rs)
  show ?case
  proof (cases "skipped ft r")
    case True
    then show ?thesis using snoc
      by (simp add: group_results_snoc group_step_def group_of_def)
  next
    case False
    then show ?thesis using snoc
      by (auto simp: group_results_snoc group_step_def group_of_def map_of_groups_append)
  qed
qed

lemma group_results_member:
  "(k, g) \<in> set (group_results ft rs) \<longleftrightarrow> g = group_of ft rs k \<and> g \<noteq> []"
proof -
  have "(k, g) \<in> set (group_results ft rs) \<longleftrightarrow> map_of (group_results ft rs) k = Some g"
    using distinct_group_results by (metis map_of_eq_Some_iff)
  then show ?thesis by (auto simp: map_of_group_results)
qed

lemma set_grouped:
  "r \<in> set (grouped ft rs) \<longleftrightarrow> r \<in> set rs \<and> \<not> skipped ft r"
proof
  assume "r \<in> set (grouped ft rs)"
  then obtain k g where kg: "(k, g) \<in> set (group_results ft rs)" and r: "r \<in> set g"
    by (auto simp: grouped_def)
  then have "r \<in> set (group_of ft rs k)" by (simp add: group_results_member)
  then show "r \<in> set rs \<and> \<not> skipped ft r" by (simp add: group_of_def)
next
  assume a: "r \<in> set rs \<and> \<not> skipped ft r"
  let ?g = "group_of ft rs (key_of r)"
  have r: "r \<in> set ?g" using a by (simp add: group_of_def)
  then have "?g \<noteq> []" by auto
  then have "(key_of r, ?g) \<in> set (group_results ft rs)" by (simp add: group_results_member)
  then show "r \<in> set (grouped ft rs)" using r by (force simp: grouped_def)
qed

lemma card_MUTATION_OPERATIONS: "card MUTATION_OPERATIONS = 6"
  by (simp add: MUTATION_OPERATIONS_def)

lemma skipped_one_category: "\<not> skipped ''standard'' r \<or> \<not> skipped ''mutation'' r"
  by (simp add: skipped_def)

subsection \<open>One group\<close>

lemma last_of_Nil: "last_of tag [] = None"
  by (simp add: last_of_def)

lemma last_of_snoc:
  "last_of tag (grp @ [r]) = (if impl r = tag then Some r else last_of tag grp)"
  by (simp add: last_of_def)

lemma last_of_Some: "last_of tag grp = Some r \<Longrightarrow> impl r = tag \<and> r \<in> set grp"
proof -
  assume a: "last_of tag grp = Some r"
  then have ne: "filter (\<lambda>r. impl r = tag) grp \<noteq> []" and r: "r = last (filter (\<lambda>r. impl r = tag) grp)"
    by (auto simp: last_of_def Let_def split: if_splits)
  from last_in_set [OF ne] r have "r \<in> set (filter (\<lambda>r. impl r = tag) grp)" by simp
  then show ?thesis by simp
qed

lemma last_of_None: "last_of tag grp = None \<longleftrightarrow> (\<forall>r \<in> set grp. impl r \<noteq> tag)"
  by (auto simp: last_of_def filter_empty_conv)

lemma select_impls_snoc: "select_impls (grp @ [r]) = select_step r (select_impls grp)"
  by (simp add: select_impls_def)

lemma select_impls_last:
  "select_impls grp = (last_of ''gohivex'' grp, last_of ''hivex'' grp)"
proof (induction grp rule: rev_induct)
  case Nil
  then show ?case by (simp add: select_impls_def last_of_Nil)
next
  case (snoc r grp)
  then show ?case
    by (simp add: select_impls_snoc select_step_def last_of_snoc)
qed

lemma select_impls_last_records: "select_impls (last_records grp) = select_impls grp"
proof -
  have "select_impls (last_records grp) = (last_of ''gohivex'' grp, last_of ''hivex'' grp)"
    by (auto simp: last_records_def select_impls_def select_step_def
        split: option.splits dest!: last_of_Some)
  then show ?thesis by (simp add: select_impls_last)
qed

lemma py_truediv_positive:
  assumes "py_gt_zero a = Inr True" and "py_gt_zero b = Inr True"
  shows "\<exists>x y. py_number a = Some x \<and> py_number b = Some y \<and> 0 < x \<and> 0 < y
           \<and> py_truediv b a = Inr (PFloat (y / x))"
  using assms by (cases a; cases b) (auto simp: py_truediv_def)

lemma set_speedup_key:
  "set_speedup c = Inr c' \<Longrightarrow> comparison_key c' = comparison_key c"
  by (auto simp: set_speedup_def comparison_key_def split: sum.splits bool.splits)

lemma set_speedup_fields:
  assumes "set_speedup c = Inr c'"
  shows "gohivex_ns c' = gohivex_ns c" "hivex_ns c' = hivex_ns c"
    "gohivex_mem c' = gohivex_mem c" "hivex_mem c' = hivex_mem c"
    "gohivex_allocs c' = gohivex_allocs c" "hivex_allocs c' = hivex_allocs c"
    "gohivex_only c' = gohivex_only c"
  using assms by (auto simp: set_speedup_def split: sum.splits bool.splits)

lemma set_speedup_result:
  assumes "set_speedup c = Inr c'"
  shows "if py_gt_zero (gohivex_ns c) = Inr True \<and> py_gt_zero (hivex_ns c) = Inr True
         then py_truediv (hivex_ns c) (gohivex_ns c) = Inr (speedup c')
         else speedup c' = speedup c"
  using assms by (auto simp: set_speedup_def split: sum.splits bool.splits)

lemma set_speedup_new_comparison:
  "set_speedup (new_comparison op sz) = Inr (new_comparison op sz)"
  by (simp add: set_speedup_def new_comparison_def)

text \<open>
  The aggregator raises only at the comparison of a time with zero. When the time of
  every record is a number it returns a list, and the times of the records that the
  text parser makes are numbers.
\<close>

lemma set_speedup_returns:
  assumes "py_number (gohivex_ns c) \<noteq> None" and "py_number (hivex_ns c) \<noteq> None"
  shows "\<exists>c'. set_speedup c = Inr c'"
proof -
  from assms(1) obtain a where a: "py_gt_zero (gohivex_ns c) = Inr a"
    by (cases "gohivex_ns c") auto
  from assms(2) obtain b where b: "py_gt_zero (hivex_ns c) = Inr b"
    by (cases "hivex_ns c") auto
  show ?thesis
  proof (cases "a \<and> b")
    case True
    with a b py_truediv_positive [of "gohivex_ns c" "hivex_ns c"]
    obtain q where "py_truediv (hivex_ns c) (gohivex_ns c) = Inr q" by auto
    with True a b show ?thesis by (auto simp: set_speedup_def)
  next
    case False
    with a b show ?thesis by (cases a; cases b) (auto simp: set_speedup_def)
  qed
qed

lemma build_comparison_eq: "build_comparison k grp = set_speedup (before_speedup k grp)"
  by (simp add: build_comparison_def select_impls_last before_speedup_def)

lemma before_speedup_fields:
  "gohivex_ns (before_speedup k grp) =
     (case last_of ''gohivex'' grp of None \<Rightarrow> PFloat 0 | Some g \<Rightarrow> ns_per_op g)"
  "gohivex_mem (before_speedup k grp) =
     (case last_of ''gohivex'' grp of None \<Rightarrow> PInt 0 | Some g \<Rightarrow> bytes_per_op g)"
  "gohivex_allocs (before_speedup k grp) =
     (case last_of ''gohivex'' grp of None \<Rightarrow> PInt 0 | Some g \<Rightarrow> allocs_per_op g)"
  "hivex_ns (before_speedup k grp) =
     (case last_of ''hivex'' grp of None \<Rightarrow> PFloat 0 | Some h \<Rightarrow> ns_per_op h)"
  "hivex_mem (before_speedup k grp) =
     (case last_of ''hivex'' grp of None \<Rightarrow> PInt 0 | Some h \<Rightarrow> bytes_per_op h)"
  "hivex_allocs (before_speedup k grp) =
     (case last_of ''hivex'' grp of None \<Rightarrow> PInt 0 | Some h \<Rightarrow> allocs_per_op h)"
  "gohivex_only (before_speedup k grp) =
     (last_of ''gohivex'' grp \<noteq> None \<and> last_of ''hivex'' grp = None)"
  "speedup (before_speedup k grp) = PFloat 0"
  by (simp_all add: before_speedup_def set_only_def set_hivex_def set_gohivex_def
      new_comparison_def split: option.splits)

lemma build_comparison_key:
  "build_comparison k g = Inr c \<Longrightarrow> comparison_key c = k"
  by (auto simp: build_comparison_def Let_def set_gohivex_def set_hivex_def set_only_def
      new_comparison_def comparison_key_def
      split: prod.splits option.splits if_splits dest!: set_speedup_key)

lemma build_comparison_fields:
  assumes "build_comparison k grp = Inr c"
  shows "gohivex_ns c = (case last_of ''gohivex'' grp of None \<Rightarrow> PFloat 0 | Some g \<Rightarrow> ns_per_op g)"
    and "gohivex_mem c = (case last_of ''gohivex'' grp of None \<Rightarrow> PInt 0 | Some g \<Rightarrow> bytes_per_op g)"
    and "gohivex_allocs c = (case last_of ''gohivex'' grp of None \<Rightarrow> PInt 0 | Some g \<Rightarrow> allocs_per_op g)"
    and "hivex_ns c = (case last_of ''hivex'' grp of None \<Rightarrow> PFloat 0 | Some h \<Rightarrow> ns_per_op h)"
    and "hivex_mem c = (case last_of ''hivex'' grp of None \<Rightarrow> PInt 0 | Some h \<Rightarrow> bytes_per_op h)"
    and "hivex_allocs c = (case last_of ''hivex'' grp of None \<Rightarrow> PInt 0 | Some h \<Rightarrow> allocs_per_op h)"
    and "gohivex_only c = (last_of ''gohivex'' grp \<noteq> None \<and> last_of ''hivex'' grp = None)"
    and "if py_gt_zero (gohivex_ns c) = Inr True \<and> py_gt_zero (hivex_ns c) = Inr True
         then py_truediv (hivex_ns c) (gohivex_ns c) = Inr (speedup c)
         else speedup c = PFloat 0"
proof -
  from assms have s: "set_speedup (before_speedup k grp) = Inr c"
    by (simp add: build_comparison_eq)
  note f = set_speedup_fields [OF s]
  show "gohivex_ns c = (case last_of ''gohivex'' grp of None \<Rightarrow> PFloat 0 | Some g \<Rightarrow> ns_per_op g)"
    using f(1) by (simp add: before_speedup_fields)
  show "gohivex_mem c = (case last_of ''gohivex'' grp of None \<Rightarrow> PInt 0 | Some g \<Rightarrow> bytes_per_op g)"
    using f(3) by (simp add: before_speedup_fields)
  show "gohivex_allocs c = (case last_of ''gohivex'' grp of None \<Rightarrow> PInt 0 | Some g \<Rightarrow> allocs_per_op g)"
    using f(5) by (simp add: before_speedup_fields)
  show "hivex_ns c = (case last_of ''hivex'' grp of None \<Rightarrow> PFloat 0 | Some h \<Rightarrow> ns_per_op h)"
    using f(2) by (simp add: before_speedup_fields)
  show "hivex_mem c = (case last_of ''hivex'' grp of None \<Rightarrow> PInt 0 | Some h \<Rightarrow> bytes_per_op h)"
    using f(4) by (simp add: before_speedup_fields)
  show "hivex_allocs c = (case last_of ''hivex'' grp of None \<Rightarrow> PInt 0 | Some h \<Rightarrow> allocs_per_op h)"
    using f(6) by (simp add: before_speedup_fields)
  show "gohivex_only c = (last_of ''gohivex'' grp \<noteq> None \<and> last_of ''hivex'' grp = None)"
    using f(7) by (simp add: before_speedup_fields)
  show "if py_gt_zero (gohivex_ns c) = Inr True \<and> py_gt_zero (hivex_ns c) = Inr True
         then py_truediv (hivex_ns c) (gohivex_ns c) = Inr (speedup c)
         else speedup c = PFloat 0"
    using set_speedup_result [OF s] f(1,2) by (simp add: before_speedup_fields(8))
qed

lemma build_comparison_unknown:
  assumes "\<forall>r \<in> set grp. impl r \<noteq> ''gohivex'' \<and> impl r \<noteq> ''hivex''"
  shows "build_comparison k grp = Inr (new_comparison (fst k) (snd k))"
proof -
  from assms have "last_of ''gohivex'' grp = None" "last_of ''hivex'' grp = None"
    by (simp_all add: last_of_None)
  then have "before_speedup k grp = new_comparison (fst k) (snd k)"
    by (simp add: before_speedup_def set_gohivex_def set_hivex_def set_only_def)
  then show ?thesis by (simp add: build_comparison_eq set_speedup_new_comparison)
qed

lemma build_comparison_returns:
  assumes "\<forall>r \<in> set grp. py_number (ns_per_op r) \<noteq> None"
  shows "\<exists>c. build_comparison k grp = Inr c"
proof -
  have g: "py_number (gohivex_ns (before_speedup k grp)) \<noteq> None"
    using assms last_of_Some [of "''gohivex''" grp]
    by (auto simp: before_speedup_fields split: option.splits)
  have h: "py_number (hivex_ns (before_speedup k grp)) \<noteq> None"
    using assms last_of_Some [of "''hivex''" grp]
    by (auto simp: before_speedup_fields split: option.splits)
  from set_speedup_returns [OF g h] show ?thesis by (simp add: build_comparison_eq)
qed

subsection \<open>The list of comparisons\<close>

lemma build_comparisons_member:
  "build_comparisons gs = Inr cs \<Longrightarrow> c \<in> set cs \<Longrightarrow>
     \<exists>(k, g) \<in> set gs. build_comparison k g = Inr c"
proof (induction gs arbitrary: cs)
  case Nil
  then show ?case by simp
next
  case (Cons kg gs)
  obtain k g where kg: "kg = (k, g)" by (cases kg)
  from Cons.prems(1) obtain c0 cs0 where
    c0: "build_comparison k g = Inr c0" and cs0: "build_comparisons gs = Inr cs0"
    and cs: "cs = c0 # cs0"
    by (auto simp: kg split: sum.splits)
  show ?case
  proof (cases "c = c0")
    case True
    then show ?thesis using c0 by (auto simp: kg)
  next
    case False
    then have "c \<in> set cs0" using Cons.prems(2) cs by simp
    from Cons.IH [OF cs0 this] show ?thesis by auto
  qed
qed

lemma build_comparisons_covers:
  "build_comparisons gs = Inr cs \<Longrightarrow> (k, g) \<in> set gs \<Longrightarrow>
     \<exists>c \<in> set cs. build_comparison k g = Inr c"
proof (induction gs arbitrary: cs)
  case Nil
  then show ?case by simp
next
  case (Cons kg gs)
  obtain k0 g0 where kg: "kg = (k0, g0)" by (cases kg)
  from Cons.prems(1) obtain c0 cs0 where
    c0: "build_comparison k0 g0 = Inr c0" and cs0: "build_comparisons gs = Inr cs0"
    and cs: "cs = c0 # cs0"
    by (auto simp: kg split: sum.splits)
  show ?case
  proof (cases "(k, g) = (k0, g0)")
    case True
    then show ?thesis using c0 cs by auto
  next
    case False
    then have "(k, g) \<in> set gs" using Cons.prems(2) kg by auto
    from Cons.IH [OF cs0 this] show ?thesis using cs by auto
  qed
qed

lemma build_comparisons_returns:
  assumes "\<forall>(k, g) \<in> set gs. \<exists>c. build_comparison k g = Inr c"
  shows "\<exists>cs. build_comparisons gs = Inr cs"
  using assms
proof (induction gs)
  case Nil
  then show ?case by simp
next
  case (Cons kg gs)
  obtain k g where kg: "kg = (k, g)" by (cases kg)
  from Cons.prems kg obtain c where c: "build_comparison k g = Inr c" by auto
  from Cons.prems have "\<forall>(k, g) \<in> set gs. \<exists>c. build_comparison k g = Inr c" by simp
  from Cons.IH [OF this] obtain cs where "build_comparisons gs = Inr cs" by blast
  with c kg show ?case by simp
qed

lemma generate_comparisons_member:
  assumes "generate_comparisons rs ft = Inr cs" and "c \<in> set cs"
  shows "build_comparison (comparison_key c) (group_of ft rs (comparison_key c)) = Inr c"
    and "group_of ft rs (comparison_key c) \<noteq> []"
proof -
  from assms(1) obtain cs0 where
    cs0: "build_comparisons (group_results ft rs) = Inr cs0" and cs: "cs = sort_key comparison_key cs0"
    by (auto simp: generate_comparisons_def split: sum.splits)
  from assms(2) cs have "c \<in> set cs0" by simp
  from build_comparisons_member [OF cs0 this] obtain k g where
    kg: "(k, g) \<in> set (group_results ft rs)" and b: "build_comparison k g = Inr c"
    by auto
  from build_comparison_key [OF b] have k: "comparison_key c = k" .
  from kg have g: "g = group_of ft rs k" "g \<noteq> []" by (auto simp: group_results_member)
  show "build_comparison (comparison_key c) (group_of ft rs (comparison_key c)) = Inr c"
    using b g k by simp
  show "group_of ft rs (comparison_key c) \<noteq> []" using g k by blast
qed

lemma generate_comparisons_covers:
  assumes "generate_comparisons results ft = Inr comparisons"
    and "r \<in> set results" and "\<not> skipped ft r"
  shows "\<exists>c \<in> set comparisons.
           build_comparison (key_of r) (group_of ft results (key_of r)) = Inr c"
proof -
  from assms(1) obtain cs0 where
    cs0: "build_comparisons (group_results ft results) = Inr cs0"
    and cs: "comparisons = sort_key comparison_key cs0"
    by (auto simp: generate_comparisons_def split: sum.splits)
  let ?g = "group_of ft results (key_of r)"
  have "r \<in> set ?g" using assms(2,3) by (simp add: group_of_def)
  then have "?g \<noteq> []" by auto
  then have "(key_of r, ?g) \<in> set (group_results ft results)"
    by (simp add: group_results_member)
  from build_comparisons_covers [OF cs0 this] show ?thesis using cs by simp
qed

lemma generate_comparisons_single:
  assumes "\<not> skipped ft r"
  shows "generate_comparisons [r] ft =
           (case build_comparison (key_of r) [r] of Inl e \<Rightarrow> Inl e | Inr c \<Rightarrow> Inr [c])"
  using assms
  by (simp add: generate_comparisons_def group_results_def group_step_def split: sum.splits)

lemma generate_comparisons_returns:
  assumes "\<forall>r \<in> set results. py_number (ns_per_op r) \<noteq> None"
  shows "\<exists>comparisons. generate_comparisons results filter_type = Inr comparisons"
proof -
  have "\<exists>c. build_comparison k g = Inr c"
    if "(k, g) \<in> set (group_results filter_type results)" for k g
  proof -
    from that have "g = group_of filter_type results k" by (simp add: group_results_member)
    then have "set g \<subseteq> set results" by (auto simp: group_of_def)
    with assms have "\<forall>r \<in> set g. py_number (ns_per_op r) \<noteq> None" by blast
    then show ?thesis by (rule build_comparison_returns)
  qed
  then have "\<forall>(k, g) \<in> set (group_results filter_type results).
               \<exists>c. build_comparison k g = Inr c"
    by blast
  from build_comparisons_returns [OF this] show ?thesis
    by (auto simp: generate_comparisons_def)
qed

lemma skipped_same_key: "key_of r' = key_of r \<Longrightarrow> skipped ft r' = skipped ft r"
  by (simp add: key_of_def skipped_def is_mutation_def operation_base_def)

lemma comparison_of_key:
  assumes "generate_comparisons results ft = Inr comparisons" and "r \<in> set results"
  shows "(\<exists>c \<in> set comparisons. comparison_key c = key_of r) \<longleftrightarrow> \<not> skipped ft r"
proof
  assume "\<exists>c \<in> set comparisons. comparison_key c = key_of r"
  then obtain c where c: "c \<in> set comparisons" and k: "comparison_key c = key_of r" by blast
  from generate_comparisons_member(2) [OF assms(1) c] k
  have "group_of ft results (key_of r) \<noteq> []" by simp
  then obtain r' where "r' \<in> set (group_of ft results (key_of r))"
    by (cases "group_of ft results (key_of r)") auto
  then have "\<not> skipped ft r'" and "key_of r' = key_of r" by (simp_all add: group_of_def)
  then show "\<not> skipped ft r" using skipped_same_key by blast
next
  assume "\<not> skipped ft r"
  from generate_comparisons_covers [OF assms(1) assms(2) this] obtain c where
    "c \<in> set comparisons"
    "build_comparison (key_of r) (group_of ft results (key_of r)) = Inr c"
    by blast
  then show "\<exists>c \<in> set comparisons. comparison_key c = key_of r"
    using build_comparison_key by blast
qed

subsection \<open>The claims about the aggregator\<close>

text \<open>
  Claim C5. Every parsed record is taken by exactly one of the two runs of the aggregator,
  with \<^verbatim>\<open>filter_type\<close> \<^verbatim>\<open>'standard'\<close> and \<^verbatim>\<open>'mutation'\<close>. The list that the mutation
  run returns has a ComparisonResult for the key of the record exactly when the operation
  name of the record, cut before the first \<^verbatim>\<open>/\<close>, is one of the six mutation
  operations, and the list that the standard run returns has one exactly when it is not.
  The same holds of the groups that the two runs build, whether they return or raise.
\<close>

theorem category_partition:
  assumes "r \<in> set results"
  shows "(\<forall>comparisons. generate_comparisons results ''mutation'' = Inr comparisons \<longrightarrow>
            ((\<exists>c \<in> set comparisons. comparison_key c = key_of r) \<longleftrightarrow>
             takeWhile (\<lambda>c. c \<noteq> CHR ''/'') (BenchmarkResult.operation r) \<in> MUTATION_OPERATIONS))
       \<and> (\<forall>comparisons. generate_comparisons results ''standard'' = Inr comparisons \<longrightarrow>
            ((\<exists>c \<in> set comparisons. comparison_key c = key_of r) \<longleftrightarrow>
             takeWhile (\<lambda>c. c \<noteq> CHR ''/'') (BenchmarkResult.operation r) \<notin> MUTATION_OPERATIONS))
       \<and> (r \<in> set (grouped ''mutation'' results) \<longleftrightarrow>
            takeWhile (\<lambda>c. c \<noteq> CHR ''/'') (BenchmarkResult.operation r) \<in> MUTATION_OPERATIONS)
       \<and> (r \<in> set (grouped ''standard'' results) \<longleftrightarrow>
            takeWhile (\<lambda>c. c \<noteq> CHR ''/'') (BenchmarkResult.operation r) \<notin> MUTATION_OPERATIONS)
       \<and> (r \<in> set (grouped ''standard'' results)) \<noteq> (r \<in> set (grouped ''mutation'' results))
       \<and> card MUTATION_OPERATIONS = 6"
proof -
  let ?base = "takeWhile (\<lambda>c. c \<noteq> CHR ''/'') (BenchmarkResult.operation r)"
  have m: "\<not> skipped ''mutation'' r \<longleftrightarrow> ?base \<in> MUTATION_OPERATIONS"
    by (simp add: skipped_def is_mutation_def operation_base_def hd_py_split)
  have s: "\<not> skipped ''standard'' r \<longleftrightarrow> ?base \<notin> MUTATION_OPERATIONS"
    by (simp add: skipped_def is_mutation_def operation_base_def hd_py_split)
  have out_m: "(\<exists>c \<in> set comparisons. comparison_key c = key_of r) \<longleftrightarrow> ?base \<in> MUTATION_OPERATIONS"
    if "generate_comparisons results ''mutation'' = Inr comparisons" for comparisons
    using comparison_of_key [OF that assms] m by simp
  have out_s: "(\<exists>c \<in> set comparisons. comparison_key c = key_of r) \<longleftrightarrow> ?base \<notin> MUTATION_OPERATIONS"
    if "generate_comparisons results ''standard'' = Inr comparisons" for comparisons
    using comparison_of_key [OF that assms] s by simp
  have g_m: "r \<in> set (grouped ''mutation'' results) \<longleftrightarrow> ?base \<in> MUTATION_OPERATIONS"
    using assms m by (simp add: set_grouped)
  have g_s: "r \<in> set (grouped ''standard'' results) \<longleftrightarrow> ?base \<notin> MUTATION_OPERATIONS"
    using assms s by (simp add: set_grouped)
  show ?thesis
    using out_m out_s g_m g_s card_MUTATION_OPERATIONS by blast
qed

theorem category_partition_witness:
  "scenario_commit \<in> set [scenario_gohivex, scenario_commit]
   \<and> generate_comparisons [scenario_gohivex, scenario_commit] ''mutation''
       = Inr [new_comparison ''Commit/1KB'' ''small''
                \<lparr> gohivex_ns := PFloat 2000, gohivex_mem := PInt 4096,
                  gohivex_allocs := PInt 12, gohivex_only := True \<rparr>]
   \<and> generate_comparisons [scenario_gohivex, scenario_commit] ''standard''
       = Inr [new_comparison ''NodeGetChild'' ''medium''
                \<lparr> gohivex_ns := PFloat 120.5, gohivex_mem := PInt 48,
                  gohivex_allocs := PInt 2, gohivex_only := True \<rparr>]
   \<and> takeWhile (\<lambda>c. c \<noteq> CHR ''/'') (BenchmarkResult.operation scenario_commit)
       \<in> MUTATION_OPERATIONS
   \<and> scenario_commit \<in> set (grouped ''mutation'' [scenario_gohivex, scenario_commit])
   \<and> scenario_commit \<notin> set (grouped ''standard'' [scenario_gohivex, scenario_commit])"
proof -
  have h: "scenario_commit \<in> set [scenario_gohivex, scenario_commit]" by simp
  have gm: "generate_comparisons [scenario_gohivex, scenario_commit] ''mutation''
       = Inr [new_comparison ''Commit/1KB'' ''small''
                \<lparr> gohivex_ns := PFloat 2000, gohivex_mem := PInt 4096,
                  gohivex_allocs := PInt 12, gohivex_only := True \<rparr>]"
    by code_simp
  have gs: "generate_comparisons [scenario_gohivex, scenario_commit] ''standard''
       = Inr [new_comparison ''NodeGetChild'' ''medium''
                \<lparr> gohivex_ns := PFloat 120.5, gohivex_mem := PInt 48,
                  gohivex_allocs := PInt 2, gohivex_only := True \<rparr>]"
    by code_simp
  have m: "takeWhile (\<lambda>c. c \<noteq> CHR ''/'') (BenchmarkResult.operation scenario_commit)
             \<in> MUTATION_OPERATIONS"
    by (simp add: scenario_commit_def MUTATION_OPERATIONS_def)
  show ?thesis using h gm gs m category_partition [OF h] by simp
qed

text \<open>
  Claim C6. Whatever the records and the category selector, the list that the aggregator
  returns is in ascending order of the operation name, and among equal operation names in
  ascending order of the size category. Both are Python's order on \<^verbatim>\<open>str\<close>, which
  \<open>string_order\<close> spells out.
\<close>

theorem comparisons_sorted:
  assumes "generate_comparisons results filter_type = Inr comparisons"
  shows "sorted_wrt
          (\<lambda>a b. ComparisonResult.operation a < ComparisonResult.operation b
                 \<or> (ComparisonResult.operation a = ComparisonResult.operation b
                     \<and> ComparisonResult.hive_size a \<le> ComparisonResult.hive_size b))
          comparisons"
proof -
  from assms obtain cs0 where cs: "comparisons = sort_key comparison_key cs0"
    by (auto simp: generate_comparisons_def split: sum.splits)
  have "sorted (map comparison_key comparisons)"
    unfolding cs by (rule sorted_sort_key)
  then have "sorted_wrt (\<lambda>a b. comparison_key a \<le> comparison_key b) comparisons"
    by (simp add: sorted_map)
  then show ?thesis
    by (rule sorted_wrt_mono_rel [rotated]) (auto simp: comparison_key_def less_eq_prod_def)
qed

theorem comparisons_sorted_witness:
  "generate_comparisons [scenario_gohivex, scenario_large] ''standard''
     = Inr [new_comparison ''NodeGetChild'' ''large''
              \<lparr> hivex_ns := PFloat 150.2, hivex_mem := PInt 64, hivex_allocs := PInt 3 \<rparr>,
            new_comparison ''NodeGetChild'' ''medium''
              \<lparr> gohivex_ns := PFloat 120.5, gohivex_mem := PInt 48, gohivex_allocs := PInt 2,
                gohivex_only := True \<rparr>]
   \<and> (''large'' :: string) \<le> ''medium''"
proof -
  have h: "generate_comparisons [scenario_gohivex, scenario_large] ''standard''
     = Inr [new_comparison ''NodeGetChild'' ''large''
              \<lparr> hivex_ns := PFloat 150.2, hivex_mem := PInt 64, hivex_allocs := PInt 3 \<rparr>,
            new_comparison ''NodeGetChild'' ''medium''
              \<lparr> gohivex_ns := PFloat 120.5, gohivex_mem := PInt 48, gohivex_allocs := PInt 2,
                gohivex_only := True \<rparr>]"
    by code_simp
  show ?thesis using h comparisons_sorted [OF h] by (simp add: new_comparison_def)
qed

text \<open>
  Claim C3. In every ComparisonResult that the aggregator returns: when the gohivex time
  and the hivex time are both greater than zero, \<^verbatim>\<open>speedup\<close> is the hivex time divided by
  the gohivex time; in every other case, and so when one of the two implementations has
  no record in the group, \<^verbatim>\<open>speedup\<close> is \<^verbatim>\<open>0.0\<close>.
\<close>

theorem speedup_ratio:
  assumes "generate_comparisons results filter_type = Inr comparisons"
    and "c \<in> set comparisons"
  shows "(if py_gt_zero (gohivex_ns c) = Inr True \<and> py_gt_zero (hivex_ns c) = Inr True
          then py_truediv (hivex_ns c) (gohivex_ns c) = Inr (speedup c)
             \<and> (\<exists>x y. py_number (gohivex_ns c) = Some x \<and> py_number (hivex_ns c) = Some y
                   \<and> 0 < x \<and> 0 < y \<and> speedup c = PFloat (y / x))
          else speedup c = PFloat 0)
       \<and> ((\<forall>r \<in> set (group_of filter_type results (comparison_key c)). impl r \<noteq> ''gohivex'')
            \<or> (\<forall>r \<in> set (group_of filter_type results (comparison_key c)). impl r \<noteq> ''hivex'')
          \<longrightarrow> speedup c = PFloat 0)"
proof -
  let ?G = "group_of filter_type results (comparison_key c)"
  note b = generate_comparisons_member(1) [OF assms]
  note f = build_comparison_fields [OF b]
  have ratio: "if py_gt_zero (gohivex_ns c) = Inr True \<and> py_gt_zero (hivex_ns c) = Inr True
          then py_truediv (hivex_ns c) (gohivex_ns c) = Inr (speedup c)
             \<and> (\<exists>x y. py_number (gohivex_ns c) = Some x \<and> py_number (hivex_ns c) = Some y
                   \<and> 0 < x \<and> 0 < y \<and> speedup c = PFloat (y / x))
          else speedup c = PFloat 0"
  proof (cases "py_gt_zero (gohivex_ns c) = Inr True \<and> py_gt_zero (hivex_ns c) = Inr True")
    case True
    then have "py_truediv (hivex_ns c) (gohivex_ns c) = Inr (speedup c)" using f(8) by simp
    moreover from True py_truediv_positive [of "gohivex_ns c" "hivex_ns c"]
    obtain x y where "py_number (gohivex_ns c) = Some x" "py_number (hivex_ns c) = Some y"
      "0 < x" "0 < y" "py_truediv (hivex_ns c) (gohivex_ns c) = Inr (PFloat (y / x))"
      by blast
    ultimately show ?thesis using True by auto
  next
    case False
    then show ?thesis using f(8) by auto
  qed
  have missing: "speedup c = PFloat 0"
    if "(\<forall>r \<in> set ?G. impl r \<noteq> ''gohivex'') \<or> (\<forall>r \<in> set ?G. impl r \<noteq> ''hivex'')"
  proof -
    from that have "last_of ''gohivex'' ?G = None \<or> last_of ''hivex'' ?G = None"
      by (simp add: last_of_None)
    then have "gohivex_ns c = PFloat 0 \<or> hivex_ns c = PFloat 0"
      using f(1) f(4) by auto
    then have "\<not> (py_gt_zero (gohivex_ns c) = Inr True \<and> py_gt_zero (hivex_ns c) = Inr True)"
      by auto
    then show ?thesis using f(8) by auto
  qed
  show ?thesis using ratio missing by blast
qed

theorem speedup_ratio_witness:
  "generate_comparisons [scenario_gohivex, scenario_hivex] ''standard'' = Inr [scenario_comparison]
   \<and> scenario_comparison \<in> set [scenario_comparison]
   \<and> py_gt_zero (gohivex_ns scenario_comparison) = Inr True
   \<and> py_gt_zero (hivex_ns scenario_comparison) = Inr True
   \<and> speedup scenario_comparison = PFloat (150.2 / 120.5)"
proof -
  have h: "generate_comparisons [scenario_gohivex, scenario_hivex] ''standard''
             = Inr [scenario_comparison]"
    by code_simp
  have m: "scenario_comparison \<in> set [scenario_comparison]" by simp
  show ?thesis using h m speedup_ratio [OF h m] by (simp add: scenario_comparison_def)
qed

text \<open>
  Claim C4. In every ComparisonResult that the aggregator returns, \<^verbatim>\<open>gohivex_only\<close> is
  true exactly when the group has a gohivex record and no hivex record. A group without
  a gohivex record gives \<^verbatim>\<open>gohivex_only\<close> false and leaves the three gohivex values at
  zero.
\<close>

theorem gohivex_only_iff:
  assumes "generate_comparisons results filter_type = Inr comparisons"
    and "c \<in> set comparisons"
  shows "(gohivex_only c \<longleftrightarrow>
            (\<exists>r \<in> set (group_of filter_type results (comparison_key c)). impl r = ''gohivex'')
          \<and> \<not> (\<exists>r \<in> set (group_of filter_type results (comparison_key c)). impl r = ''hivex''))
       \<and> ((\<forall>r \<in> set (group_of filter_type results (comparison_key c)). impl r \<noteq> ''gohivex'')
          \<longrightarrow> \<not> gohivex_only c \<and> gohivex_ns c = PFloat 0 \<and> gohivex_mem c = PInt 0
              \<and> gohivex_allocs c = PInt 0)"
proof -
  let ?G = "group_of filter_type results (comparison_key c)"
  note b = generate_comparisons_member(1) [OF assms]
  note f = build_comparison_fields [OF b]
  have go: "last_of ''gohivex'' ?G \<noteq> None \<longleftrightarrow> (\<exists>r \<in> set ?G. impl r = ''gohivex'')"
    by (simp add: last_of_None)
  have hi: "last_of ''hivex'' ?G = None \<longleftrightarrow> \<not> (\<exists>r \<in> set ?G. impl r = ''hivex'')"
    by (simp add: last_of_None)
  have only: "gohivex_only c \<longleftrightarrow>
      (\<exists>r \<in> set ?G. impl r = ''gohivex'') \<and> \<not> (\<exists>r \<in> set ?G. impl r = ''hivex'')"
    using f(7) go hi by simp
  have zero: "\<not> gohivex_only c \<and> gohivex_ns c = PFloat 0 \<and> gohivex_mem c = PInt 0
      \<and> gohivex_allocs c = PInt 0"
    if "\<forall>r \<in> set ?G. impl r \<noteq> ''gohivex''"
  proof -
    from that have "last_of ''gohivex'' ?G = None" by (simp add: last_of_None)
    then show ?thesis using f(1) f(2) f(3) f(7) by simp
  qed
  show ?thesis using only zero by blast
qed

theorem gohivex_only_iff_witness:
  "generate_comparisons [scenario_hivex] ''standard''
     = Inr [new_comparison ''NodeGetChild'' ''medium''
              \<lparr> hivex_ns := PFloat 150.2, hivex_mem := PInt 64, hivex_allocs := PInt 3 \<rparr>]
   \<and> group_of ''standard'' [scenario_hivex] (''NodeGetChild'', ''medium'') = [scenario_hivex]
   \<and> impl scenario_hivex = ''hivex''
   \<and> \<not> gohivex_only (new_comparison ''NodeGetChild'' ''medium''
              \<lparr> hivex_ns := PFloat 150.2, hivex_mem := PInt 64, hivex_allocs := PInt 3 \<rparr>)
   \<and> gohivex_ns (new_comparison ''NodeGetChild'' ''medium''
              \<lparr> hivex_ns := PFloat 150.2, hivex_mem := PInt 64, hivex_allocs := PInt 3 \<rparr>)
       = PFloat 0"
proof -
  let ?c = "new_comparison ''NodeGetChild'' ''medium''
              \<lparr> hivex_ns := PFloat 150.2, hivex_mem := PInt 64, hivex_allocs := PInt 3 \<rparr>"
  have h: "generate_comparisons [scenario_hivex] ''standard'' = Inr [?c]"
    by code_simp
  have m: "?c \<in> set [?c]" by simp
  have k: "comparison_key ?c = (''NodeGetChild'', ''medium'')"
    by (simp add: comparison_key_def new_comparison_def)
  have g: "group_of ''standard'' [scenario_hivex] (''NodeGetChild'', ''medium'') = [scenario_hivex]"
    by code_simp
  have i: "impl scenario_hivex = ''hivex''"
    by (simp add: scenario_hivex_def)
  show ?thesis using h g i gohivex_only_iff [OF h m] unfolding k by simp
qed

text \<open>
  Claim C7. In every ComparisonResult that the aggregator returns, the values of an
  implementation are those of the last record with that implementation tag in the group's
  list. Earlier records with the same tag change nothing, and add no error: a group gives
  the result, or the exception, of the group made of its last gohivex and last hivex
  record alone.
\<close>

theorem last_record_wins:
  assumes "generate_comparisons results filter_type = Inr comparisons"
    and "c \<in> set comparisons"
  shows "(\<forall>g. last_of ''gohivex'' (group_of filter_type results (comparison_key c)) = Some g
            \<longrightarrow> gohivex_ns c = ns_per_op g \<and> gohivex_mem c = bytes_per_op g
                \<and> gohivex_allocs c = allocs_per_op g)
       \<and> (\<forall>h. last_of ''hivex'' (group_of filter_type results (comparison_key c)) = Some h
            \<longrightarrow> hivex_ns c = ns_per_op h \<and> hivex_mem c = bytes_per_op h
                \<and> hivex_allocs c = allocs_per_op h)
       \<and> (\<forall>k grp. build_comparison k grp = build_comparison k (last_records grp))"
proof -
  note b = generate_comparisons_member(1) [OF assms]
  note f = build_comparison_fields [OF b]
  have same: "build_comparison k grp = build_comparison k (last_records grp)" for k grp
    by (simp add: build_comparison_def select_impls_last_records)
  show ?thesis using f(1-6) same by simp
qed

theorem last_record_wins_witness:
  "generate_comparisons [scenario_rerun, scenario_gohivex, scenario_hivex] ''standard''
     = Inr [scenario_comparison]
   \<and> last_of ''gohivex''
       (group_of ''standard'' [scenario_rerun, scenario_gohivex, scenario_hivex]
          (''NodeGetChild'', ''medium'')) = Some scenario_gohivex
   \<and> gohivex_ns scenario_comparison = ns_per_op scenario_gohivex"
proof -
  have h: "generate_comparisons [scenario_rerun, scenario_gohivex, scenario_hivex] ''standard''
             = Inr [scenario_comparison]"
    by code_simp
  have m: "scenario_comparison \<in> set [scenario_comparison]" by simp
  have k: "comparison_key scenario_comparison = (''NodeGetChild'', ''medium'')"
    by (simp add: comparison_key_def scenario_comparison_def)
  have l: "last_of ''gohivex''
       (group_of ''standard'' [scenario_rerun, scenario_gohivex, scenario_hivex]
          (''NodeGetChild'', ''medium'')) = Some scenario_gohivex"
    by code_simp
  show ?thesis using h l last_record_wins [OF h m] unfolding k by simp
qed

text \<open>
  Claim C9, as stated: a JSON line whose implementation tag is neither \<^verbatim>\<open>gohivex\<close> nor
  \<^verbatim>\<open>hivex\<close> gets a ComparisonResult of its own, with every value zero and
  \<^verbatim>\<open>gohivex_only\<close> false. It fails when a record with a known tag has the same operation
  and size: the key of a group does not hold the tag, so the two records share one group,
  and the only ComparisonResult carries the values of the gohivex record, with
  \<^verbatim>\<open>gohivex_only\<close> true.
\<close>

theorem unknown_implementation_counterexample:
  \<open>parse_benchmarks
     [''{"Name": "BenchmarkNodeGetChild/other/medium", "T": 5}'',
      ''{"Name":"BenchmarkNodeGetChild/gohivex/medium","N":1000000,"T":120.5,"B":48,"A":2}'']
     = Inr [scenario_other, scenario_gohivex]
   \<and> impl scenario_other = ''other''
   \<and> \<not> skipped ''standard'' scenario_other
   \<and> generate_comparisons [scenario_other, scenario_gohivex] ''standard''
       = Inr [\<lparr> ComparisonResult.operation = ''NodeGetChild'',
                 ComparisonResult.hive_size = ''medium'',
                 gohivex_ns = PFloat 120.5, hivex_ns = PFloat 0, speedup = PFloat 0,
                 gohivex_mem = PInt 48, hivex_mem = PInt 0,
                 gohivex_allocs = PInt 2, hivex_allocs = PInt 0,
                 gohivex_only = True \<rparr>]\<close>
proof -
  have s1: \<open>py_strip ''{"Name": "BenchmarkNodeGetChild/other/medium", "T": 5}''
            = ''{"Name": "BenchmarkNodeGetChild/other/medium", "T": 5}''\<close>
    by code_simp
  have s2: \<open>py_strip
      ''{"Name":"BenchmarkNodeGetChild/gohivex/medium","N":1000000,"T":120.5,"B":48,"A":2}''
     = ''{"Name":"BenchmarkNodeGetChild/gohivex/medium","N":1000000,"T":120.5,"B":48,"A":2}''\<close>
    by code_simp
  have p: \<open>parse_benchmarks
     [''{"Name": "BenchmarkNodeGetChild/other/medium", "T": 5}'',
      ''{"Name":"BenchmarkNodeGetChild/gohivex/medium","N":1000000,"T":120.5,"B":48,"A":2}'']
     = Inr [scenario_other, scenario_gohivex]\<close>
    by (simp add: parse_line_def s1 s2 parse_json_other parse_json_scenario)
  have i: "impl scenario_other = ''other''"
    by (simp add: scenario_other_def)
  have k: "\<not> skipped ''standard'' scenario_other"
    by (simp add: skipped_def is_mutation_def operation_base_def MUTATION_OPERATIONS_def
        scenario_other_def)
  have g: "generate_comparisons [scenario_other, scenario_gohivex] ''standard''
       = Inr [\<lparr> ComparisonResult.operation = ''NodeGetChild'',
                 ComparisonResult.hive_size = ''medium'',
                 gohivex_ns = PFloat 120.5, hivex_ns = PFloat 0, speedup = PFloat 0,
                 gohivex_mem = PInt 48, hivex_mem = PInt 0,
                 gohivex_allocs = PInt 2, hivex_allocs = PInt 0,
                 gohivex_only = True \<rparr>]"
    by code_simp
  show ?thesis using p i k g by simp
qed

text \<open>
  Claim C9, amended. A JSON line whose \<^verbatim>\<open>Name\<close> has at least two segments, the second
  neither \<^verbatim>\<open>gohivex\<close> nor \<^verbatim>\<open>hivex\<close>, is parsed to a record. The tag plays no part in
  the category filter, which keeps the record in one of its two runs. In a run that keeps
  it, and when no record with its operation and size has one of the two known tags, the
  list that the aggregator returns holds for its key the ComparisonResult as the
  constructor made it: every value of the two implementations zero, \<^verbatim>\<open>speedup\<close> zero and
  \<^verbatim>\<open>gohivex_only\<close> false. The aggregator does return such a list when the record is
  alone.
\<close>

theorem unknown_implementation:
  assumes "json_loads line = Inr (PDict data)"
    and "dict_get data ''Name'' (PStr []) = PStr nm"
    and "length (py_split CHR ''/'' nm) \<ge> 2"
    and "py_split CHR ''/'' nm ! 1 \<noteq> ''gohivex''"
    and "py_split CHR ''/'' nm ! 1 \<noteq> ''hivex''"
  shows "\<exists>r. parse_json_benchmark line = Inr (Some r)
           \<and> impl r = py_split CHR ''/'' nm ! 1
           \<and> (\<not> skipped ''standard'' r \<or> \<not> skipped ''mutation'' r)
           \<and> (\<forall>results filter_type comparisons.
                 r \<in> set results \<and> \<not> skipped filter_type r
                 \<and> (\<forall>r' \<in> set (group_of filter_type results (key_of r)).
                       impl r' \<noteq> ''gohivex'' \<and> impl r' \<noteq> ''hivex'')
                 \<and> generate_comparisons results filter_type = Inr comparisons
                 \<longrightarrow> new_comparison (BenchmarkResult.operation r) (BenchmarkResult.hive_size r)
                       \<in> set comparisons)
           \<and> (\<forall>filter_type. \<not> skipped filter_type r \<longrightarrow>
                 generate_comparisons [r] filter_type
                   = Inr [new_comparison (BenchmarkResult.operation r)
                            (BenchmarkResult.hive_size r)])"
proof -
  from parse_json_benchmark_dict [OF assms(1-3)] obtain r where
    p: "parse_json_benchmark line = Inr (Some r)" and i: "impl r = py_split CHR ''/'' nm ! 1"
    by simp
  have tag: "impl r \<noteq> ''gohivex'' \<and> impl r \<noteq> ''hivex''" using i assms(4,5) by simp
  have listed: "new_comparison (BenchmarkResult.operation r) (BenchmarkResult.hive_size r)
                  \<in> set comparisons"
    if "r \<in> set results" and "\<not> skipped filter_type r"
      and "\<forall>r' \<in> set (group_of filter_type results (key_of r)).
             impl r' \<noteq> ''gohivex'' \<and> impl r' \<noteq> ''hivex''"
      and "generate_comparisons results filter_type = Inr comparisons"
    for results filter_type comparisons
  proof -
    from generate_comparisons_covers [OF that(4) that(1) that(2)] obtain c where
      c: "c \<in> set comparisons"
      and b: "build_comparison (key_of r) (group_of filter_type results (key_of r)) = Inr c"
      by blast
    from b build_comparison_unknown [OF that(3), of "key_of r"]
    have "c = new_comparison (BenchmarkResult.operation r) (BenchmarkResult.hive_size r)"
      by (simp add: key_of_def)
    then show ?thesis using c by simp
  qed
  have alone: "generate_comparisons [r] filter_type
                 = Inr [new_comparison (BenchmarkResult.operation r)
                          (BenchmarkResult.hive_size r)]"
    if "\<not> skipped filter_type r" for filter_type
  proof -
    have "build_comparison (key_of r) [r]
            = Inr (new_comparison (BenchmarkResult.operation r) (BenchmarkResult.hive_size r))"
      using build_comparison_unknown [of "[r]" "key_of r"] tag by (simp add: key_of_def)
    then show ?thesis by (simp add: generate_comparisons_single [OF that])
  qed
  show ?thesis using p i skipped_one_category [of r] listed alone by blast
qed

theorem unknown_implementation_witness:
  \<open>json_loads ''{"Name": "BenchmarkNodeGetChild/other/medium", "T": 5}''
     = Inr (PDict [(''Name'', PStr ''BenchmarkNodeGetChild/other/medium''), (''T'', PInt 5)])
   \<and> dict_get [(''Name'', PStr ''BenchmarkNodeGetChild/other/medium''), (''T'', PInt 5)]
        ''Name'' (PStr []) = PStr ''BenchmarkNodeGetChild/other/medium''
   \<and> length (py_split CHR ''/'' ''BenchmarkNodeGetChild/other/medium'') \<ge> 2
   \<and> py_split CHR ''/'' ''BenchmarkNodeGetChild/other/medium'' ! 1 = ''other''
   \<and> (\<exists>r. parse_json_benchmark ''{"Name": "BenchmarkNodeGetChild/other/medium", "T": 5}''
              = Inr (Some r)
          \<and> impl r = ''other''
          \<and> generate_comparisons [r] ''standard''
              = Inr [new_comparison (BenchmarkResult.operation r) (BenchmarkResult.hive_size r)])\<close>
proof -
  have n: "dict_get [(''Name'', PStr ''BenchmarkNodeGetChild/other/medium''), (''T'', PInt 5)]
        ''Name'' (PStr []) = PStr ''BenchmarkNodeGetChild/other/medium''"
    by (simp add: dict_get_def)
  have l: "length (py_split CHR ''/'' ''BenchmarkNodeGetChild/other/medium'') \<ge> 2"
    by simp
  have t: "py_split CHR ''/'' ''BenchmarkNodeGetChild/other/medium'' ! 1 = ''other''"
    by simp
  have g: "py_split CHR ''/'' ''BenchmarkNodeGetChild/other/medium'' ! 1 \<noteq> ''gohivex''"
    and h: "py_split CHR ''/'' ''BenchmarkNodeGetChild/other/medium'' ! 1 \<noteq> ''hivex''"
    by simp_all
  from unknown_implementation [OF json_loads_unknown_tag n l g h] obtain r where
    p: \<open>parse_json_benchmark ''{"Name": "BenchmarkNodeGetChild/other/medium", "T": 5}''
          = Inr (Some r)\<close>
    and i: "impl r = py_split CHR ''/'' ''BenchmarkNodeGetChild/other/medium'' ! 1"
    and a: "\<forall>filter_type. \<not> skipped filter_type r \<longrightarrow>
                 generate_comparisons [r] filter_type
                   = Inr [new_comparison (BenchmarkResult.operation r)
                            (BenchmarkResult.hive_size r)]"
    by blast
  from p parse_json_benchmark_dict [OF json_loads_unknown_tag n l]
  have "BenchmarkResult.operation r = ''NodeGetChild''" by (auto simp: Let_def)
  then have "\<not> skipped ''standard'' r"
    by (simp add: skipped_def is_mutation_def operation_base_def MUTATION_OPERATIONS_def)
  with a have "generate_comparisons [r] ''standard''
                   = Inr [new_comparison (BenchmarkResult.operation r)
                            (BenchmarkResult.hive_size r)]" by blast
  then show ?thesis using json_loads_unknown_tag n l t p i by auto
qed

end
